theory Spec2Isabelle
  imports Complex_Main
begin

section \<open>Strings and numbers of the source language\<close>

text \<open>
  The program is TypeScript. A source string is modelled as a \<^typ>\<open>string\<close>, one
  \<^typ>\<open>char\<close> per code unit, so the model covers the code units 0 to 255 (Latin-1); on
  these the library functions used by the source behave as defined below. A source
  number is a double. A finite one is modelled by its value, a \<^typ>\<open>rat\<close>, or an
  \<^typ>\<open>int\<close> or a \<^typ>\<open>nat\<close> where the source only produces an integer that a double
  holds exactly; \<open>null\<close>, \<open>undefined\<close> and \<open>NaN\<close> are \<^const>\<open>None\<close>. \<open>Math.round x\<close> is
  \<^term>\<open>round x\<close>, which is \<open>\<lfloor>x + 1/2\<rfloor>\<close> in both, and is exact on a double.
\<close>

text \<open>
  The arithmetic of doubles. A double other than zero is \<open>m * 2 ^ e\<close> with an integer
  \<open>m\<close> of 53 bits, and the sum, the product and the quotient of two doubles are the
  doubles nearest to the exact results, the one with the even \<open>m\<close> on a tie.
  \<open>bits n\<close> is the length of \<open>n\<close> in binary, \<open>exponent x\<close> the \<open>e\<close> with
  \<open>2 ^ e \<le> x < 2 ^ (e + 1)\<close> for a positive \<open>x\<close>, and \<open>fl x\<close> the nearest number with 53
  significant bits. It is the nearest double as long as the magnitude of \<open>x\<close> is
  neither below \<open>2 ^ -1022\<close>, where doubles are spaced evenly, nor rounds to
  \<open>2 ^ 1024\<close>, where the double is \<open>Infinity\<close>. The tools below compute no number other
  than zero below \<open>2 ^ -1022\<close>, and \<open>Infinity\<close> comes from \<open>parseInt\<close> only. In the
  registration lookup and the date forensics every operation is rounded by \<open>fl\<close>; in
  the brand patterns, the market search and the parser a number is modelled by its
  exact value.
\<close>

fun bits :: "nat \<Rightarrow> nat" where
  "bits n = (if n = 0 then 0 else Suc (bits (n div 2)))"

declare bits.simps [simp del]

definition exponent :: "rat \<Rightarrow> int" where
  "exponent x =
     (if 1 \<le> x then int (bits (nat \<lfloor>x\<rfloor>)) - 1 else - int (bits (nat (\<lceil>1 / x\<rceil> - 1))))"

definition roundEven :: "rat \<Rightarrow> int" where
  "roundEven y =
     (let f = \<lfloor>y\<rfloor>; d = y - of_int f
      in if d < 1 / 2 then f else if 1 / 2 < d then f + 1 else if even f then f else f + 1)"

definition fl :: "rat \<Rightarrow> rat" where
  "fl x =
     (if x = 0 then 0
      else let u = 2 powi (exponent \<bar>x\<bar> - 52)
           in sgn x * of_int (roundEven (\<bar>x\<bar> / u)) * u)"

text \<open>
  \<open>near k x y\<close>: the number \<open>x\<close> is the number \<open>y\<close>, which is not negative, up to \<open>k\<close>
  roundings, each of which changes a number by at most one part in \<open>2 ^ 53\<close>.
\<close>

definition shrink :: rat where
  "shrink = 1 - 1 / 2 ^ 53"

definition near :: "nat \<Rightarrow> rat \<Rightarrow> rat \<Rightarrow> bool" where
  "near k x y = (0 \<le> y \<and> y * shrink ^ k \<le> x \<and> x * shrink ^ k \<le> y)"

text \<open>A number that is not \<open>NaN\<close> and not negative: a finite double or \<open>Infinity\<close>.\<close>

datatype number = Finite rat | Infinity

text \<open>The double nearest to a real number \<open>x\<close> that is not negative.\<close>

definition double :: "rat \<Rightarrow> number" where
  "double x = (if 2 ^ 1024 \<le> fl x then Infinity else Finite (fl x))"

text \<open>The character class \<open>[0-9]\<close>, which is also \<open>\d\<close>.\<close>

definition isDigit :: "char \<Rightarrow> bool" where
  "isDigit c = (c \<in> set ''0123456789'')"

definition digitValue :: "char \<Rightarrow> nat" where
  "digitValue c = of_char c - 48"

text \<open>The integer that a run of digits spells.\<close>

definition digitsValue :: "string \<Rightarrow> nat" where
  "digitsValue ds = foldl (\<lambda>a c. 10 * a + digitValue c) 0 ds"

text \<open>
  \<open>parseInt s\<close> for a string that starts with a decimal digit or is empty, which is
  all that \<open>rnLookup\<close> passes to it (a run of digits): \<open>NaN\<close> when there is no digit,
  and else the double nearest to the integer that the leading digits spell, which is
  that integer when it is below \<open>2 ^ 53\<close>, and \<open>Infinity\<close> for a run of digits that is
  long enough. (For more than 20 digits the language lets an implementation read the
  digits after the 20th as zeros; the model rounds the integer spelt.)
\<close>

definition parseInt :: "string \<Rightarrow> number option" where
  "parseInt s =
     (let ds = takeWhile isDigit s
      in if ds = [] then None else Some (double (of_nat (digitsValue ds))))"

text \<open>The decimal rendering of a number inside a template string.\<close>

fun showNat :: "nat \<Rightarrow> string" where
  "showNat n =
     (if n < 10 then [char_of (48 + n)] else showNat (n div 10) @ [char_of (48 + n mod 10)])"

declare showNat.simps [simp del]

definition showInt :: "int \<Rightarrow> string" where
  "showInt i = (if i < 0 then CHR ''-'' # showNat (nat (- i)) else showNat (nat i))"

text \<open>\<open>s.toLowerCase()\<close> on the code units 0 to 255.\<close>

definition lowerChar :: "char \<Rightarrow> char" where
  "lowerChar c =
     (let n = (of_char c :: nat)
      in if (65 \<le> n \<and> n \<le> 90) \<or> (192 \<le> n \<and> n \<le> 222 \<and> n \<noteq> 215)
         then char_of (n + 32) else c)"

definition toLowerCase :: "string \<Rightarrow> string" where
  "toLowerCase s = map lowerChar s"

text \<open>White space and line terminators among the code units 0 to 255: \<open>\s\<close>, and what
  \<open>trim\<close> removes.\<close>

definition isSpace :: "char \<Rightarrow> bool" where
  "isSpace c = ((of_char c :: nat) \<in> set [9, 10, 11, 12, 13, 32, 160])"

definition trim :: "string \<Rightarrow> string" where
  "trim s = rev (dropWhile isSpace (rev (dropWhile isSpace s)))"

text \<open>\<open>s.includes(sub)\<close>.\<close>

definition startsWith :: "string \<Rightarrow> string \<Rightarrow> bool" where
  "startsWith s sub = (take (length sub) s = sub)"

fun includesStr :: "string \<Rightarrow> string \<Rightarrow> bool" where
  "includesStr [] sub = (sub = [])"
| "includesStr (c # cs) sub = (startsWith (c # cs) sub \<or> includesStr cs sub)"

text \<open>\<open>s.split(',')\<close>: the empty string splits into one empty piece.\<close>

fun splitStr :: "char \<Rightarrow> string \<Rightarrow> string list" where
  "splitStr d [] = [[]]"
| "splitStr d (c # cs) =
     (if c = d then [] # splitStr d cs
      else (case splitStr d cs of [] \<Rightarrow> [[c]] | x # xs \<Rightarrow> (c # x) # xs))"

text \<open>\<open>s.replace(c, '')\<close> with a one-character string \<open>c\<close>: the first occurrence goes.\<close>

fun removeFirst :: "char \<Rightarrow> string \<Rightarrow> string" where
  "removeFirst d [] = []"
| "removeFirst d (c # cs) = (if c = d then cs else c # removeFirst d cs)"

text \<open>\<open>a || b\<close> on strings: the empty string is falsy, and so is a missing property.\<close>

definition orElse :: "string option \<Rightarrow> string \<Rightarrow> string" where
  "orElse a b = (case a of None \<Rightarrow> b | Some s \<Rightarrow> if s = [] then b else s)"

text \<open>
  An argument record \<open>Record<string, string>\<close> is a map from keys to strings. A static
  table written as an object literal is an association list, in the order of the
  literal. Reading \<open>table[key]\<close> finds the table's own entry; when there is none and
  \<open>key\<close> names a property of \<open>Object.prototype\<close>, the read yields that inherited value,
  which is truthy and is no entry of the table; otherwise it yields \<open>undefined\<close>.
\<close>

type_synonym args = "string \<rightharpoonup> string"

datatype 'a property = Own 'a | Inherited | Undefined

definition prototypeKeys :: "string list" where
  "prototypeKeys =
     [''constructor'', ''__defineGetter__'', ''__defineSetter__'', ''hasOwnProperty'',
      ''__lookupGetter__'', ''__lookupSetter__'', ''isPrototypeOf'',
      ''propertyIsEnumerable'', ''toString'', ''valueOf'', ''__proto__'',
      ''toLocaleString'']"

definition getProperty :: "(string \<times> 'a) list \<Rightarrow> string \<Rightarrow> 'a property" where
  "getProperty table key =
     (case map_of table key of
        Some v \<Rightarrow> Own v
      | None \<Rightarrow> if key \<in> set prototypeKeys then Inherited else Undefined)"

section \<open>Tool 1: registration number lookup\<close>

text \<open>
  \<^verbatim>\<open>
  function calculateRNYear(rnNumber: number): number | null {
    if (rnNumber < 13670) return null // Pre-formula series
    return Math.round((rnNumber - 13670) / 2635 + 1959)
  }
  \<close>
\<close>

text \<open>
  The difference, the quotient and the sum are rounded to doubles one after the other,
  and \<open>Math.round\<close> then yields an integer. \<open>Infinity\<close> is not below 13670, and each
  of the four operations maps it to \<open>Infinity\<close>. A finite \<open>rnNumber\<close> from 13670 on
  yields a finite year, since the difference and the quotient are not above
  \<open>rnNumber\<close>.
\<close>

fun calculateRNYear :: "number \<Rightarrow> number option" where
  "calculateRNYear Infinity = Some Infinity"
| "calculateRNYear (Finite rnNumber) =
     (if rnNumber < 13670 then None
      else Some (Finite (of_int (round (fl (fl (fl (rnNumber - 13670) / 2635) + 1959))))))"

record RNEntry =
  company :: string
  year :: "int option"

definition RN_DATABASE :: "(string \<times> RNEntry) list" where
  "RN_DATABASE =
     [(''42850'', \<lparr>company = ''Nike Inc.'', year = Some 1970\<rparr>),
      (''55531'', \<lparr>company = ''Gap Inc.'', year = Some 1975\<rparr>),
      (''73277'', \<lparr>company = ''Levi Strauss & Co.'', year = Some 1982\<rparr>),
      (''73909'', \<lparr>company = ''Ralph Lauren Corporation'', year = Some 1982\<rparr>),
      (''77388'', \<lparr>company = ''Tommy Hilfiger'', year = Some 1984\<rparr>),
      (''91518'', \<lparr>company = ''The North Face'', year = Some 1989\<rparr>),
      (''101243'', \<lparr>company = ''Patagonia Inc.'', year = Some 1992\<rparr>),
      (''114798'', \<lparr>company = ''Carhartt Inc.'', year = Some 1997\<rparr>),
      (''56002'', \<lparr>company = ''Levi's (alternate)'', year = Some 1975\<rparr>),
      (''41381'', \<lparr>company = ''Pendleton Woolen Mills'', year = Some 1969\<rparr>),
      (''15763'', \<lparr>company = ''L.L.Bean Inc.'', year = Some 1960\<rparr>),
      (''26094'', \<lparr>company = ''Fruit of the Loom'', year = Some 1964\<rparr>)]"

datatype RNStatus = active | inactive | not_found

text \<open>
  The result record. The source's field \<open>formula\<close>, a text that spells \<open>rnNum\<close> and the
  calculated year in decimal, is left out: no other field depends on it. In the branch
  in which parsing fails it is \<open>'N/A'\<close>.
\<close>

record RNLookupResult =
  rnNumber :: string
  companyName :: string
  registrationYear :: "int option"
  calculatedYear :: "number option"
  status :: RNStatus

text \<open>\<open>x || null\<close> and \<open>x ? a : b\<close> on a number or \<open>null\<close>: zero is falsy.\<close>

definition truthyYear :: "int option \<Rightarrow> bool" where
  "truthyYear y = (case y of None \<Rightarrow> False | Some v \<Rightarrow> v \<noteq> 0)"

definition truthyNumber :: "number option \<Rightarrow> bool" where
  "truthyNumber y = (case y of None \<Rightarrow> False | Some Infinity \<Rightarrow> True | Some (Finite v) \<Rightarrow> v \<noteq> 0)"

text \<open>
  \<open>rnLookup\<close>. The key \<open>cleaned\<close> read in \<open>RN_DATABASE\<close> is a run of digits, which names
  no inherited property, so the read is that of the table alone.
\<close>

definition rnLookup :: "args \<Rightarrow> RNLookupResult" where
  "rnLookup a =
     (let rawNumber = orElse (a ''rn_number'') '''';
          cleaned = filter isDigit rawNumber
      in case parseInt cleaned of
           None \<Rightarrow>
             \<lparr>rnNumber = rawNumber, companyName = ''Invalid RN number'',
              registrationYear = None, calculatedYear = None, status = not_found\<rparr>
         | Some rnNum \<Rightarrow>
             (let knownEntry = map_of RN_DATABASE cleaned;
                  calculated = calculateRNYear rnNum
              in \<lparr>rnNumber = ''RN '' @ cleaned,
                  companyName =
                    orElse (map_option company knownEntry) (''Unknown (RN '' @ cleaned @ '')''),
                  registrationYear =
                    (case knownEntry of
                       None \<Rightarrow> None
                     | Some e \<Rightarrow> if truthyYear (year e) then year e else None),
                  calculatedYear = calculated,
                  status =
                    (if knownEntry \<noteq> None then active
                     else if truthyNumber calculated then active else not_found)\<rparr>))"

section \<open>Tool 2: brand pattern verification\<close>

record EraData =
  patterns :: "string list"
  redFlagPatterns :: "string list"
  eraDetails :: string

text \<open>A brand's record has the one field \<open>eras\<close>, an object keyed by decade, in this order.\<close>

type_synonym BrandPatternDB = "(string \<times> EraData) list"

definition BRAND_PATTERNS :: "(string \<times> BrandPatternDB) list" where
  "BRAND_PATTERNS =
     [(''nike'',
       [(''1970s'',
         \<lparr>patterns = [''Block letter NIKE logo'', ''Made in Japan/Taiwan'', ''Waffle outsole'',
            ''Simple swoosh''],
          redFlagPatterns = [''Modern swoosh design'', ''Made in China/Vietnam'',
            ''Moisture-wicking materials''],
          eraDetails = ''Early Nike featured block letters and Japanese manufacturing. The swoosh was thinner and simpler.''\<rparr>),
        (''1980s'',
         \<lparr>patterns = [''Grey tag'', ''Silver/grey label'', ''Made in Taiwan/Korea'', ''Block font'',
            ''Pin tag on collar''],
          redFlagPatterns = [''White label'', ''Modern barcode format'', ''Dri-FIT branding''],
          eraDetails = ''The Grey Tag era (1980-87) is highly collectible. Look for silver/grey woven labels.''\<rparr>),
        (''1990s'',
         \<lparr>patterns = [''White tag'', ''White label'', ''Made in USA possible'', ''Embroidered swoosh'',
            ''Mini swoosh''],
          redFlagPatterns = [''Grey tag (too early)'', ''Modern hang tag design'',
            ''Flex/React branding''],
          eraDetails = ''White Tag era (1988-1998). Highly sought after. Mini swoosh and center swoosh are valuable.''\<rparr>),
        (''2000s'',
         \<lparr>patterns = [''Size tag on inside'', ''Modern hang tag'', ''Tech fabric labels'',
            ''Barcode tag''],
          redFlagPatterns = [''Missing care labels'', ''Incorrect font spacing'',
            ''Poor swoosh proportions''],
          eraDetails = ''Modern era Nike. Look for consistent label formatting and proper material composition tags.''\<rparr>)]),
      (''levis'',
       [(''1960s'',
         \<lparr>patterns = [''Big E (LEVI'S)'', ''Single-stitch hems'', ''Redline selvedge'',
            ''Paper patch''],
          redFlagPatterns = [''Lowercase e'', ''Chain stitch hems'', ''Modern rivets''],
          eraDetails = ''Big E era uses capital E in LEVI'S. Extremely valuable. Check for selvedge denim.''\<rparr>),
        (''1970s'',
         \<lparr>patterns = [''Small e (Levi's)'', ''Orange tab possible'', ''Care tag with numbers'',
            ''Chain stitch hems''],
          redFlagPatterns = [''Big E (too early)'', ''Modern leather patch'', ''Stretch denim''],
          eraDetails = ''Transition from Big E to small e happened ~1971. Orange tab indicates non-501 line.''\<rparr>),
        (''1980s'',
         \<lparr>patterns = [''Red tab small e'', ''Leather patch'', ''Made in USA'',
            ''Cone Mills denim possible''],
          redFlagPatterns = [''Paper patch'', ''Non-US manufacture'', ''Modern button styles''],
          eraDetails = ''Made in USA era. Look for quality denim weight and Cone Mills fabric.''\<rparr>),
        (''1990s'',
         \<lparr>patterns = [''Red tab small e'', ''Various global manufacture'', ''Silver tab line'',
            ''Baggy/loose cuts''],
          redFlagPatterns = [''Incorrect tab placement'', ''Poor rivet quality'',
            ''Wrong pocket arc pattern''],
          eraDetails = ''Diverse manufacturing era. Silver Tab line is collectible. Check pocket arcs carefully.''\<rparr>)]),
      (''ralph lauren'',
       [(''1980s'',
         \<lparr>patterns = [''Polo player logo'', ''Made in USA'', ''Single-needle construction'',
            ''Button-down collar''],
          redFlagPatterns = [''Modern tag design'', ''Made in Sri Lanka/China'',
            ''Missing country of origin''],
          eraDetails = ''Golden era Ralph Lauren. Made in USA with premium construction. Look for single-needle stitching.''\<rparr>),
        (''1990s'',
         \<lparr>patterns = [''Polo Sport line'', ''Hi-Tech collection'', ''Snow Beach'', ''Stadium 1992''],
          redFlagPatterns = [''Incorrect flag design'', ''Wrong font for era'',
            ''Poor embroidery quality''],
          eraDetails = ''Highly collectible era. Polo Sport, Snow Beach, and Stadium 1992 command premium prices.''\<rparr>)])]"

record BrandPatternResult =
  brand :: string
  era :: string
  authenticityScore :: int
  matchedPatterns :: "string list"
  redFlags :: "string list"
  details :: string

text \<open>What a call can raise.\<close>

datatype error =
    TypeError
  | UnknownTool string
  | ConfigError
  | TransportError
  | ResponseError

text \<open>\<^verbatim>\<open>(args.markers || '').split(',').map(m => m.trim()).filter(Boolean)\<close>\<close>

definition splitList :: "string \<Rightarrow> string list" where
  "splitList s = filter (\<lambda>m. m \<noteq> []) (map trim (splitStr CHR '','' s))"

text \<open>
  A known string is observed when its first ten characters, in lower case, occur in
  some observed marker, in lower case:
  \<^verbatim>\<open>observedMarkers.some(m => m.toLowerCase().includes(patternLower.slice(0, 10)))\<close>
\<close>

definition observed :: "string list \<Rightarrow> string \<Rightarrow> bool" where
  "observed observedMarkers known =
     list_ex (\<lambda>m. includesStr (toLowerCase m) (take 10 (toLowerCase known))) observedMarkers"

text \<open>
  \<^verbatim>\<open>eraKeys.find(k => era.includes(k.replace('s', ''))) || eraKeys[eraKeys.length - 1]\<close>
  With no key at all the read yields \<open>undefined\<close>.
\<close>

definition lastKey :: "string list \<Rightarrow> string option" where
  "lastKey eraKeys = (if eraKeys = [] then None else Some (last eraKeys))"

definition matchEra :: "string list \<Rightarrow> string \<Rightarrow> string option" where
  "matchEra eraKeys e =
     (case List.find (\<lambda>k. includesStr e (removeFirst CHR ''s'' k)) eraKeys of
        Some k \<Rightarrow> if k \<noteq> [] then Some k else lastKey eraKeys
      | None \<Rightarrow> lastKey eraKeys)"

text \<open>
  \<^verbatim>\<open>
  const patternScore = eraData.patterns.length > 0
    ? (matchedPatterns.length / eraData.patterns.length) * 100
    : 50
  const redFlagPenalty = redFlags.length * 15
  const authenticityScore = Math.max(0, Math.min(100, Math.round(patternScore - redFlagPenalty)))
  \<close>
\<close>

definition scoreOf :: "nat \<Rightarrow> nat \<Rightarrow> nat \<Rightarrow> int" where
  "scoreOf matched expected flags =
     (let patternScore =
            (if expected > 0 then (of_nat matched / of_nat expected) * 100 else (50 :: rat));
          redFlagPenalty = of_nat flags * 15
      in max 0 (min 100 (round (patternScore - redFlagPenalty))))"

text \<open>
  The three arguments as \<open>brandPatterns\<close> reads them:
  \<^verbatim>\<open>
  const brand = (args.brand || '').toLowerCase().trim()
  const era = (args.era || '').trim()
  const observedMarkers = (args.markers || '').split(',').map(m => m.trim()).filter(Boolean)
  \<close>
  Then \<open>brandPatterns\<close> itself. For a key inherited from \<open>Object.prototype\<close> the value read is
  truthy, so the guard \<open>if (!brandData)\<close> lets it pass; it has no \<open>eras\<close>, and
  \<open>Object.keys(undefined)\<close> raises a \<open>TypeError\<close>.
\<close>

definition brandKeyOf :: "args \<Rightarrow> string" where
  "brandKeyOf a = trim (toLowerCase (orElse (a ''brand'') ''''))"

definition eraArgOf :: "args \<Rightarrow> string" where
  "eraArgOf a = trim (orElse (a ''era'') '''')"

definition observedMarkersOf :: "args \<Rightarrow> string list" where
  "observedMarkersOf a = splitList (orElse (a ''markers'') '''')"

definition brandPatterns :: "args \<Rightarrow> error + BrandPatternResult" where
  "brandPatterns a =
     (let brandKey = brandKeyOf a;
          eraArg = eraArgOf a;
          observedMarkers = observedMarkersOf a
      in case getProperty BRAND_PATTERNS brandKey of
           Undefined \<Rightarrow>
             Inr \<lparr>brand = orElse (a ''brand'') ''Unknown'', era = eraArg, authenticityScore = 50,
                  matchedPatterns = [],
                  redFlags = [''Brand not in database - manual verification required''],
                  details =
                    ''Brand '' @ [CHR 0x22] @
                    (case a ''brand'' of None \<Rightarrow> ''undefined'' | Some b \<Rightarrow> b) @ [CHR 0x22] @
                    '' not found in forensic database. Manual authentication recommended.''\<rparr>
         | Inherited \<Rightarrow> Inl TypeError
         | Own eras \<Rightarrow>
             (case matchEra (map fst eras) eraArg of
                None \<Rightarrow> Inl TypeError
              | Some matchedEra \<Rightarrow>
                  (case map_of eras matchedEra of
                     None \<Rightarrow> Inl TypeError
                   | Some eraData \<Rightarrow>
                       (let matched = filter (observed observedMarkers) (patterns eraData);
                            flags = filter (observed observedMarkers) (redFlagPatterns eraData)
                        in Inr \<lparr>brand = orElse (a ''brand'') ''Unknown'', era = matchedEra,
                                authenticityScore =
                                  scoreOf (length matched) (length (patterns eraData))
                                    (length flags),
                                matchedPatterns =
                                  (if length matched > 0 then matched else patterns eraData),
                                redFlags = (if length flags > 0 then flags else []),
                                details = eraDetails eraData\<rparr>))))"

section \<open>Tool 3: date forensics\<close>

text \<open>
  A marker's confidence is the double that its literal denotes: \<open>0.7\<close> is
  \<^term>\<open>fl (7 / 10)\<close>.
\<close>

record ConstructionMarker =
  feature :: string
  eraRange :: "int \<times> int"
  confidence_m :: rat

definition CONSTRUCTION_MARKERS :: "ConstructionMarker list" where
  "CONSTRUCTION_MARKERS =
     [\<lparr>feature = ''single-needle'', eraRange = (1950, 1990), confidence_m = fl (7 / 10)\<rparr>,
      \<lparr>feature = ''chain stitch'', eraRange = (1950, 1985), confidence_m = fl (8 / 10)\<rparr>,
      \<lparr>feature = ''selvedge'', eraRange = (1920, 1985), confidence_m = fl (85 / 100)\<rparr>,
      \<lparr>feature = ''union label'', eraRange = (1955, 1995), confidence_m = fl (9 / 10)\<rparr>,
      \<lparr>feature = ''made in usa'', eraRange = (1940, 2000), confidence_m = fl (6 / 10)\<rparr>,
      \<lparr>feature = ''made in japan'', eraRange = (1960, 1990), confidence_m = fl (7 / 10)\<rparr>,
      \<lparr>feature = ''made in china'', eraRange = (1985, 2026), confidence_m = fl (5 / 10)\<rparr>,
      \<lparr>feature = ''ykk zipper'', eraRange = (1960, 2026), confidence_m = fl (4 / 10)\<rparr>,
      \<lparr>feature = ''talon zipper'', eraRange = (1930, 1990), confidence_m = fl (85 / 100)\<rparr>,
      \<lparr>feature = ''coats & clark'', eraRange = (1950, 2010), confidence_m = fl (6 / 10)\<rparr>,
      \<lparr>feature = ''bar tack'', eraRange = (1960, 2026), confidence_m = fl (3 / 10)\<rparr>,
      \<lparr>feature = ''rolled hem'', eraRange = (1940, 1980), confidence_m = fl (75 / 100)\<rparr>,
      \<lparr>feature = ''triple stitch'', eraRange = (1970, 2026), confidence_m = fl (4 / 10)\<rparr>,
      \<lparr>feature = ''polyester'', eraRange = (1960, 2026), confidence_m = fl (3 / 10)\<rparr>,
      \<lparr>feature = ''nylon'', eraRange = (1940, 2026), confidence_m = fl (2 / 10)\<rparr>,
      \<lparr>feature = ''rayon'', eraRange = (1920, 2026), confidence_m = fl (3 / 10)\<rparr>,
      \<lparr>feature = ''care label'', eraRange = (1971, 2026), confidence_m = fl (8 / 10)\<rparr>,
      \<lparr>feature = ''no care label'', eraRange = (1920, 1971), confidence_m = fl (9 / 10)\<rparr>]"

record DateForensicsResult =
  estimatedEra :: string
  yearRange :: "int \<times> int"
  confidence_df :: rat
  evidence :: "string list"
  constructionDetails :: "string list"
  materialAnalysis :: string

text \<open>
  \<^verbatim>\<open>
  const combined = `${details} ${materials}`
  CONSTRUCTION_MARKERS.forEach(marker => {
    if (combined.includes(marker.feature)) matchedMarkers.push(marker)
  })
  \<close>
\<close>

definition combinedText :: "args \<Rightarrow> string" where
  "combinedText a =
     toLowerCase (orElse (a ''construction_details'') '''') @ '' '' @
     toLowerCase (orElse (a ''materials'') '''')"

definition matchMarkers :: "string \<Rightarrow> ConstructionMarker list" where
  "matchMarkers combined = filter (\<lambda>marker. includesStr combined (feature marker)) CONSTRUCTION_MARKERS"

text \<open>
  The sums the second \<open>forEach\<close> accumulates, from 0, in the order of the list; each
  product and each sum is rounded to a double.
\<close>

definition totalWeight :: "ConstructionMarker list \<Rightarrow> rat" where
  "totalWeight ms = foldl (\<lambda>acc m. fl (acc + confidence_m m)) 0 ms"

definition weightedStart :: "ConstructionMarker list \<Rightarrow> rat" where
  "weightedStart ms =
     foldl (\<lambda>acc m. fl (acc + fl (of_int (fst (eraRange m)) * confidence_m m))) 0 ms"

definition weightedEnd :: "ConstructionMarker list \<Rightarrow> rat" where
  "weightedEnd ms =
     foldl (\<lambda>acc m. fl (acc + fl (of_int (snd (eraRange m)) * confidence_m m))) 0 ms"

text \<open>\<open>Math.max(...xs)\<close> and \<open>Math.min(...xs)\<close> of a list with first element \<open>x\<close>.\<close>

definition maxOf :: "int \<Rightarrow> int list \<Rightarrow> int" where
  "maxOf x xs = fold max xs x"

definition minOf :: "int \<Rightarrow> int list \<Rightarrow> int" where
  "minOf x xs = fold min xs x"

text \<open>\<open>Math.floor(y / 10) * 10\<close> for a year \<open>y\<close>.\<close>

definition decadeOf :: "int \<Rightarrow> int" where
  "decadeOf y = \<lfloor>fl (of_int y / 10)\<rfloor> * 10"

definition evidenceLine :: "ConstructionMarker \<Rightarrow> string" where
  "evidenceLine m =
     feature m @ '': '' @ showInt (fst (eraRange m)) @ ''-'' @ showInt (snd (eraRange m)) @
     '' ('' @ showInt (round (fl (confidence_m m * 100))) @ ''% confidence)''"

text \<open>
  \<open>dateForensics\<close>. The two averages are quotients of doubles, rounded to doubles and
  then to integers; the mean confidence, the product \<open>length * 0.05\<close> and their sum
  are rounded to doubles; \<open>0.3\<close>, \<open>0.05\<close> and \<open>0.95\<close> are the doubles that the literals
  denote.
\<close>

definition dateForensics :: "args \<Rightarrow> DateForensicsResult" where
  "dateForensics a =
     (let detailsText = toLowerCase (orElse (a ''construction_details'') '''');
          materials = toLowerCase (orElse (a ''materials'') '''');
          combined = detailsText @ '' '' @ materials
      in case matchMarkers combined of
           [] \<Rightarrow>
             \<lparr>estimatedEra = ''Undetermined'', yearRange = (1960, 2020),
              confidence_df = fl (3 / 10),
              evidence = [''No specific construction markers identified''],
              constructionDetails = [detailsText],
              materialAnalysis = orElse (Some materials) ''Not specified''\<rparr>
         | m # ms \<Rightarrow>
             (let matchedMarkers = m # ms;
                  avgStart = round (fl (weightedStart matchedMarkers / totalWeight matchedMarkers));
                  avgEnd = round (fl (weightedEnd matchedMarkers / totalWeight matchedMarkers));
                  overlapStart = maxOf (fst (eraRange m)) (map (\<lambda>k. fst (eraRange k)) ms);
                  overlapEnd = minOf (snd (eraRange m)) (map (\<lambda>k. snd (eraRange k)) ms);
                  finalStart = (if overlapStart \<le> overlapEnd then overlapStart else avgStart);
                  finalEnd = (if overlapStart \<le> overlapEnd then overlapEnd else avgEnd);
                  avgConfidence = fl (totalWeight matchedMarkers / of_nat (length matchedMarkers))
              in \<lparr>estimatedEra =
                    showInt (decadeOf finalStart) @ ''s - '' @ showInt (decadeOf finalEnd) @ ''s'',
                  yearRange = (finalStart, finalEnd),
                  confidence_df =
                    min (fl (95 / 100))
                      (fl (avgConfidence + fl (of_nat (length matchedMarkers) * fl (5 / 100)))),
                  evidence = map evidenceLine matchedMarkers,
                  constructionDetails = splitList detailsText,
                  materialAnalysis = orElse (Some materials) ''Not specified''\<rparr>))"

text \<open>
  The quantities that the specification of the dating names, in exact arithmetic: the
  averages of the starts and of the ends, weighted by the confidences of the markers,
  and the mean of these confidences.
\<close>

definition averageStart :: "ConstructionMarker list \<Rightarrow> rat" where
  "averageStart ms =
     sum_list (map (\<lambda>m. of_int (fst (eraRange m)) * confidence_m m) ms) /
     sum_list (map confidence_m ms)"

definition averageEnd :: "ConstructionMarker list \<Rightarrow> rat" where
  "averageEnd ms =
     sum_list (map (\<lambda>m. of_int (snd (eraRange m)) * confidence_m m) ms) /
     sum_list (map confidence_m ms)"

definition meanConfidence :: "ConstructionMarker list \<Rightarrow> rat" where
  "meanConfidence ms = sum_list (map confidence_m ms) / of_nat (length ms)"

section \<open>Tool 4: market search\<close>

text \<open>
  \<open>Math.random()\<close> is read three times by one call of \<open>marketSearch\<close>; the three
  values, each at least 0 and below 1, are a parameter of the model.
\<close>

type_synonym draws = "rat \<times> rat \<times> rat"

definition baseValues :: "(string \<times> (int \<times> int)) list" where
  "baseValues =
     [(''nike'', (80, 450)),
      (''levis'', (60, 800)),
      (''ralph lauren'', (50, 600)),
      (''the north face'', (70, 350)),
      (''patagonia'', (60, 300)),
      (''carhartt'', (40, 250)),
      (''champion'', (40, 200)),
      (''stussy'', (80, 500)),
      (''supreme'', (100, 2000)),
      (''default'', (30, 200))]"

text \<open>
  \<^verbatim>\<open>const brandValues = baseValues[brand] || baseValues.default\<close>
  A key inherited from \<open>Object.prototype\<close> yields a truthy value that has neither
  \<open>low\<close> nor \<open>high\<close>: no band, and every number computed from it is \<open>NaN\<close>.
\<close>

definition brandValues :: "string \<Rightarrow> (int \<times> int) option" where
  "brandValues brandKey =
     (case getProperty baseValues brandKey of
        Own band \<Rightarrow> Some band
      | Inherited \<Rightarrow> None
      | Undefined \<Rightarrow> Some (30, 200))"

text \<open>
  \<^verbatim>\<open>
  let eraMultiplier = 1.0
  if (era.includes('1970') || era.includes('1980')) eraMultiplier = 1.8
  else if (era.includes('1990')) eraMultiplier = 1.4
  else if (era.includes('2000')) eraMultiplier = 0.8
  \<close>
\<close>

definition eraMultiplier :: "string \<Rightarrow> rat" where
  "eraMultiplier e =
     (if includesStr e ''1970'' \<or> includesStr e ''1980'' then 18 / 10
      else if includesStr e ''1990'' then 14 / 10
      else if includesStr e ''2000'' then 8 / 10
      else 1)"

record EstimatedValue =
  low :: "int option"
  mid :: "int option"
  high :: "int option"
  currency :: string

record ComparableSale =
  title :: string
  price :: "int option"
  platform :: string
  date :: string
  condition :: string

datatype MarketTrend = rising | stable | declining

datatype DemandLevel = demand_very_high | demand_high | demand_moderate | demand_low

record MarketSearchResult =
  estimatedValue :: EstimatedValue
  comparableSales :: "ComparableSale list"
  marketTrend :: MarketTrend
  demandLevel :: DemandLevel

definition marketSearch :: "draws \<Rightarrow> args \<Rightarrow> MarketSearchResult" where
  "marketSearch d a =
     (let description = orElse (a ''item_description'') '''';
          brandKey = toLowerCase (orElse (a ''brand'') '''');
          eraArg = orElse (a ''era'') '''';
          band = brandValues brandKey;
          mult = eraMultiplier eraArg;
          lo = map_option (\<lambda>b. round (of_int (fst b) * mult)) band;
          hi = map_option (\<lambda>b. round (of_int (snd b) * mult)) band;
          md = (case (lo, hi) of
                  (Some l, Some h) \<Rightarrow> Some (round ((of_int (l + h) :: rat) / 2))
                | _ \<Rightarrow> None)
      in \<lparr>estimatedValue = \<lparr>low = lo, mid = md, high = hi, currency = ''USD''\<rparr>,
          comparableSales =
            [\<lparr>title = description @ '' - Similar condition'',
              price = map_option (\<lambda>m. m + round (fst d * 50 - 25)) md,
              platform = ''eBay'', date = ''2026-01-15'', condition = ''Good''\<rparr>,
             \<lparr>title = description @ '' - Excellent condition'',
              price = map_option (\<lambda>h. h - round (fst (snd d) * 50)) hi,
              platform = ''Grailed'', date = ''2026-01-10'', condition = ''Excellent''\<rparr>,
             \<lparr>title = description @ '' - Fair condition'',
              price = map_option (\<lambda>l. l + round (snd (snd d) * 30)) lo,
              platform = ''Depop'', date = ''2025-12-28'', condition = ''Fair''\<rparr>],
          marketTrend = (if mult > 12 / 10 then rising else stable),
          demandLevel =
            (if mult > 15 / 10 then demand_very_high
             else if mult > 1 then demand_high else demand_moderate)\<rparr>)"

section \<open>The tool router\<close>

datatype ToolResult =
    RNLookup RNLookupResult
  | BrandPattern BrandPatternResult
  | DateForensics DateForensicsResult
  | MarketSearch MarketSearchResult

definition TOOL_MAP :: "(string \<times> (draws \<Rightarrow> args \<Rightarrow> error + ToolResult)) list" where
  "TOOL_MAP =
     [(''rn_lookup'', \<lambda>d a. Inr (RNLookup (rnLookup a))),
      (''brand_patterns'', \<lambda>d a. map_sum id BrandPattern (brandPatterns a)),
      (''date_forensics'', \<lambda>d a. Inr (DateForensics (dateForensics a))),
      (''market_search'', \<lambda>d a. Inr (MarketSearch (marketSearch d a)))]"

text \<open>
  What \<open>executeToolCall\<close> resolves to: the result of one of the four tools or, for a
  name inherited from \<open>Object.prototype\<close>, what calling that inherited value on the
  arguments returns. The guard \<open>if (!tool)\<close> raises \<open>Unknown tool\<close> for a name that yields
  \<open>undefined\<close> only. Of the inherited values, \<open>constructor\<close> is \<open>Object\<close>, which returns
  its argument; \<open>toString\<close>, called without a receiver, returns the tag of
  \<open>undefined\<close>; \<open>__proto__\<close> is no function, and the others convert their missing
  receiver to an object: a \<open>TypeError\<close> each.
\<close>

datatype ToolValue =
    Result ToolResult
  | ArgumentObject args
  | ObjectTag string

definition executeToolCall :: "draws \<Rightarrow> string \<Rightarrow> args \<Rightarrow> error + ToolValue" where
  "executeToolCall d toolName a =
     (case getProperty TOOL_MAP toolName of
        Undefined \<Rightarrow> Inl (UnknownTool toolName)
      | Own tool \<Rightarrow> map_sum id Result (tool d a)
      | Inherited \<Rightarrow>
          if toolName = ''constructor'' then Inr (ArgumentObject a)
          else if toolName = ''toString'' then Inr (ObjectTag ''[object Undefined]'')
          else Inl TypeError)"

definition forensicTools :: "string list" where
  "forensicTools = map fst TOOL_MAP"

section \<open>The response parser\<close>

datatype ConfidenceLevel = Very_high | High | Moderate | Low | Uncertain

text \<open>
  \<^verbatim>\<open>
  function getConfidenceLevel(score: number): ConfidenceLevel {
    if (score >= 90) return 'very_high'
    if (score >= 75) return 'high'
    if (score >= 55) return 'moderate'
    if (score >= 35) return 'low'
    return 'uncertain'
  }
  \<close>
\<close>

definition getConfidenceLevel :: "int \<Rightarrow> ConfidenceLevel" where
  "getConfidenceLevel score =
     (if score \<ge> 90 then Very_high
      else if score \<ge> 75 then High
      else if score \<ge> 55 then Moderate
      else if score \<ge> 35 then Low
      else Uncertain)"

text \<open>
  The three patterns of the confidence score, each tried at every position from the
  left:
  \<^verbatim>\<open>
  text.match(/confidence[:\s]*(\d{1,3})%/i) ||
  text.match(/(\d{1,3})%\s*confident/i) ||
  text.match(/score[:\s]*(\d{1,3})/i)
  \<close>
  A literal matches without regard to the case of its letters. The quantifiers are
  greedy, and giving back what one has taken never helps here: the character after a
  longest run of \<open>[:\s]\<close> or \<open>\s\<close> is outside the class, so a shorter run is followed by
  a character of the class, which is neither a digit nor a letter; and a shorter run of
  digits is followed by a digit, which is not \<open>%\<close>. Each function returns the captured
  group.
\<close>

fun literalAt :: "string \<Rightarrow> string \<Rightarrow> string option" where
  "literalAt [] s = Some s"
| "literalAt (p # ps) [] = None"
| "literalAt (p # ps) (c # cs) = (if lowerChar c = p then literalAt ps cs else None)"

definition isColonOrSpace :: "char \<Rightarrow> bool" where
  "isColonOrSpace c = (c = CHR '':'' \<or> isSpace c)"

definition digits3 :: "string \<Rightarrow> string" where
  "digits3 s = takeWhile isDigit (take 3 s)"

definition confidencePercentAt :: "string \<Rightarrow> string option" where
  "confidencePercentAt s =
     (case literalAt ''confidence'' s of
        None \<Rightarrow> None
      | Some r \<Rightarrow>
          (let r' = dropWhile isColonOrSpace r; ds = digits3 r'
           in if ds \<noteq> [] \<and> startsWith (drop (length ds) r') ''%'' then Some ds else None))"

definition percentConfidentAt :: "string \<Rightarrow> string option" where
  "percentConfidentAt s =
     (let ds = digits3 s
      in if ds = [] then None
         else (case drop (length ds) s of
                 [] \<Rightarrow> None
               | c # r \<Rightarrow>
                   if c = CHR ''%'' \<and> literalAt ''confident'' (dropWhile isSpace r) \<noteq> None
                   then Some ds else None))"

definition scoreAt :: "string \<Rightarrow> string option" where
  "scoreAt s =
     (case literalAt ''score'' s of
        None \<Rightarrow> None
      | Some r \<Rightarrow>
          (let ds = digits3 (dropWhile isColonOrSpace r)
           in if ds \<noteq> [] then Some ds else None))"

fun firstMatch :: "(string \<Rightarrow> 'a option) \<Rightarrow> string \<Rightarrow> 'a option" where
  "firstMatch m [] = m []"
| "firstMatch m (c # cs) =
     (case m (c # cs) of Some r \<Rightarrow> Some r | None \<Rightarrow> firstMatch m cs)"

definition confidenceMatch :: "string \<Rightarrow> string option" where
  "confidenceMatch txt =
     (case firstMatch confidencePercentAt txt of
        Some ds \<Rightarrow> Some ds
      | None \<Rightarrow>
          (case firstMatch percentConfidentAt txt of
             Some ds \<Rightarrow> Some ds
           | None \<Rightarrow> firstMatch scoreAt txt))"

text \<open>\<open>parseInt\<close> of a captured group, which is a run of one to three digits.\<close>

definition decimal :: "string \<Rightarrow> nat" where
  "decimal ds = foldl (\<lambda>a c. 10 * a + digitValue c) 0 ds"

text \<open>
  \<^verbatim>\<open>const confidence = confidenceMatch ? Math.min(100, parseInt(confidenceMatch[1])) : 50\<close>
\<close>

definition parseConfidence :: "string \<Rightarrow> int" where
  "parseConfidence txt =
     (case confidenceMatch txt of
        None \<Rightarrow> 50
      | Some ds \<Rightarrow> min 100 (int (decimal ds)))"

text \<open>
  The result record. Of the source's \<open>AuthenticationResult\<close> the model keeps the fields
  below; a field of a nested report is named by its path. The fields left out
  (\<open>isAuthentic\<close>, the brand, the era, the year range, the red flags, the verified
  markers and the value band) are computed from the text by further patterns, and
  from nothing else.
\<close>

datatype ItemCategory =
    jacket | shirt | pants | dress | shoes | bag | accessory | hat | outerwear | sportswear
  | denim | unknown

record AuthenticationResult =
  confidence :: int
  confidenceLevel :: ConfidenceLevel
  category :: ItemCategory
  brandEra_confidence :: rat
  rnLookup_r :: "RNLookupResult option"
  brandPattern_authenticityScore :: int
  brandPattern_details :: string
  dateForensics_confidence :: rat
  dateForensics_constructionDetails :: "string list"
  dateForensics_materialAnalysis :: string
  marketData_comparableSales :: "ComparableSale list"
  marketData_marketTrend :: MarketTrend
  marketData_demandLevel :: DemandLevel
  reasoning :: string
  thinkingOutput :: string
  timestamp :: int
  processingTime :: int

text \<open>
  \<open>parseAuthenticationResponse\<close>. \<open>Date.now()\<close> is read twice while the record is
  built; the two readings are the parameter \<open>clock\<close>.
\<close>

definition parseAuthenticationResponse :: "string \<Rightarrow> int \<Rightarrow> int \<times> int \<Rightarrow> AuthenticationResult" where
  "parseAuthenticationResponse txt startTime clock =
     (let c = parseConfidence txt
      in \<lparr>confidence = c,
          confidenceLevel = getConfidenceLevel c,
          category = unknown,
          brandEra_confidence = of_int c / 100,
          rnLookup_r = None,
          brandPattern_authenticityScore = c,
          brandPattern_details = take 500 txt,
          dateForensics_confidence = of_int c / 100,
          dateForensics_constructionDetails = [],
          dateForensics_materialAnalysis = '''',
          marketData_comparableSales = [],
          marketData_marketTrend = stable,
          marketData_demandLevel = (if c > 75 then demand_high else demand_moderate),
          reasoning = txt,
          thinkingOutput = txt,
          timestamp = fst clock,
          processingTime = snd clock - startTime\<rparr>)"

section \<open>The orchestrator\<close>

record GeminiConfig =
  apiKey :: string
  model :: string
  selfCorrectionThreshold :: rat

record PartialConfig =
  apiKey_opt :: "string option"
  model_opt :: "string option"
  selfCorrectionThreshold_opt :: "rat option"

text \<open>
  \<open>DEFAULT_CONFIG\<close> reads the key and the model name from the build environment; the
  fields \<open>thinkingLevel\<close>, \<open>mediaResolution\<close> and \<open>maxRetries\<close> are read nowhere in the
  flow and are left out.
\<close>

definition DEFAULT_CONFIG :: "string option \<Rightarrow> string option \<Rightarrow> GeminiConfig" where
  "DEFAULT_CONFIG envKey envModel =
     \<lparr>apiKey = orElse envKey '''', model = orElse envModel ''gemini-2.0-flash'',
      selfCorrectionThreshold = 7 / 10\<rparr>"

text \<open>\<^verbatim>\<open>const mergedConfig = { ...DEFAULT_CONFIG, ...config }\<close>\<close>

definition mergeConfig :: "GeminiConfig \<Rightarrow> PartialConfig \<Rightarrow> GeminiConfig" where
  "mergeConfig dflt config =
     \<lparr>apiKey = (case apiKey_opt config of None \<Rightarrow> apiKey dflt | Some k \<Rightarrow> k),
      model = (case model_opt config of None \<Rightarrow> model dflt | Some m \<Rightarrow> m),
      selfCorrectionThreshold =
        (case selfCorrectionThreshold_opt config of
           None \<Rightarrow> selfCorrectionThreshold dflt
         | Some t \<Rightarrow> t)\<rparr>"

record InlineData =
  data :: string
  mimeType :: string

text \<open>
  \<^verbatim>\<open>
  const base64 = base64Data.includes(',') ? base64Data.split(',')[1] : base64Data
  const mimeType = base64Data.includes('image/png') ? 'image/png' : 'image/jpeg'
  \<close>
\<close>

definition imageToGenerativePart :: "string \<Rightarrow> InlineData" where
  "imageToGenerativePart base64Data =
     \<lparr>data =
        (if includesStr base64Data '','' then
           (case splitStr CHR '','' base64Data of _ # piece # _ \<Rightarrow> piece | _ \<Rightarrow> base64Data)
         else base64Data),
      mimeType = (if includesStr base64Data ''image/png'' then ''image/png'' else ''image/jpeg'')\<rparr>"

record FunctionCall =
  callName :: string
  callArgs :: args

text \<open>
  What the orchestrator sends to the hosted model: the fixed forensic prompt with the
  image; the responses of one round of tool calls, each under the name of its call; the
  correction prompt, which quotes the confidence of the first analysis.
\<close>

datatype message =
    InitialMessage InlineData
  | ToolResponses "(string \<times> ToolValue) list"
  | CorrectionMessage int

text \<open>
  What comes back from \<open>chat.sendMessage\<close>: the call fails (\<open>Rejected\<close>); or it yields
  a response whose accessors \<open>functionCalls()\<close> and \<open>text()\<close> raise (\<open>Blocked\<close>); or it
  yields a response with its function calls, \<open>undefined\<close> when the model asks for none,
  and its text.
\<close>

datatype reply =
    Rejected
  | Blocked
  | Answer "FunctionCall list option" string

text \<open>
  The surroundings of one run: the hosted model, as a function of all that has been
  sent to it in this conversation; the draws of \<open>Math.random\<close> for call \<open>j\<close> of round
  \<open>i\<close>; the readings of \<open>Date.now()\<close> in the order they are taken; the build
  environment. The optional progress callback has no part in the result and is left out.
\<close>

record env =
  chat :: "message list \<Rightarrow> reply"
  random :: "nat \<Rightarrow> nat \<Rightarrow> draws"
  now :: "nat \<Rightarrow> int"
  envApiKey :: "string option"
  envModel :: "string option"

text \<open>\<open>Promise.all\<close>: the first rejection in the order of the calls, else all the values.\<close>

fun promiseAll :: "(error + 'a) list \<Rightarrow> error + 'a list" where
  "promiseAll [] = Inr []"
| "promiseAll (Inl e # rs) = Inl e"
| "promiseAll (Inr v # rs) = (case promiseAll rs of Inl e \<Rightarrow> Inl e | Inr vs \<Rightarrow> Inr (v # vs))"

text \<open>
  \<^verbatim>\<open>
  functionCalls.map(async (call) => {
    const toolResult = await executeToolCall(call.name, call.args as Record<string, string>)
    return { functionResponse: { name: call.name, response: toolResult } }
  })
  \<close>
\<close>

definition toolResponse :: "draws \<Rightarrow> FunctionCall \<Rightarrow> error + (string \<times> ToolValue)" where
  "toolResponse d call =
     map_sum id (\<lambda>toolResult. (callName call, toolResult))
       (executeToolCall d (callName call) (callArgs call))"

definition runCalls :: "(nat \<Rightarrow> draws) \<Rightarrow> FunctionCall list \<Rightarrow> error + (string \<times> ToolValue) list" where
  "runCalls ds calls =
     promiseAll (map (\<lambda>(j, call). toolResponse (ds j) call) (enumerate 0 calls))"

definition maxToolCalls :: nat where
  "maxToolCalls = 8"

text \<open>
  The loop
  \<^verbatim>\<open>
  while (result.functionCalls() && toolCallCount < maxToolCalls) {
    const functionCalls = result.functionCalls()!
    toolCallCount++
    const toolResponses = await Promise.all(...)
    response = await chat.sendMessage(toolResponses)
    result = response.response
  }
  \<close>
  from a state of the loop: what has been sent so far, the counter, and the reply to the
  last message. It returns the counter and what has been sent when the loop is left,
  with the response then at hand or the error raised. An array of calls is truthy even
  when empty.
\<close>

function toolLoop :: "env \<Rightarrow> message list \<Rightarrow> nat \<Rightarrow> reply \<Rightarrow> nat \<times> message list \<times> (error + reply)" where
  "toolLoop E sent toolCallCount result =
     (case result of
        Rejected \<Rightarrow> (toolCallCount, sent, Inl TransportError)
      | Blocked \<Rightarrow> (toolCallCount, sent, Inl ResponseError)
      | Answer functionCalls txt \<Rightarrow>
          (case functionCalls of
             None \<Rightarrow> (toolCallCount, sent, Inr result)
           | Some calls \<Rightarrow>
               if toolCallCount < maxToolCalls then
                 (case runCalls (random E toolCallCount) calls of
                    Inl e \<Rightarrow> (toolCallCount + 1, sent, Inl e)
                  | Inr toolResponses \<Rightarrow>
                      toolLoop E (sent @ [ToolResponses toolResponses]) (toolCallCount + 1)
                        (chat E (sent @ [ToolResponses toolResponses])))
               else (toolCallCount, sent, Inr result)))"
  by pat_completeness auto
termination
  by (relation "measure (\<lambda>(E, sent, toolCallCount, result). maxToolCalls - toolCallCount)") auto

declare toolLoop.simps [simp del]

text \<open>The conversation up to the end of the loop, from the first message on.\<close>

definition conversation :: "env \<Rightarrow> string \<Rightarrow> nat \<times> message list \<times> (error + reply)" where
  "conversation E imageData =
     (let first = [InitialMessage (imageToGenerativePart imageData)]
      in toolLoop E first 0 (chat E first))"

text \<open>
  \<^verbatim>\<open>
  const textResponse = result.text()
  const authResult = parseAuthenticationResponse(textResponse, startTime)
  \<close>
\<close>

definition initialParse :: "env \<Rightarrow> string \<Rightarrow> error + (message list \<times> AuthenticationResult)" where
  "initialParse E imageData =
     (case conversation E imageData of
        (n, sent, Inl e) \<Rightarrow> Inl e
      | (n, sent, Inr Rejected) \<Rightarrow> Inl TransportError
      | (n, sent, Inr Blocked) \<Rightarrow> Inl ResponseError
      | (n, sent, Inr (Answer functionCalls textResponse)) \<Rightarrow>
          Inr (sent, parseAuthenticationResponse textResponse (now E 0) (now E 1, now E 2)))"

text \<open>
  The self-correction turn: one more message in the same conversation when the
  confidence is below the threshold, and the choice between the two results.
  \<^verbatim>\<open>
  if (authResult.confidence < mergedConfig.selfCorrectionThreshold * 100) {
    const correctionResponse = await chat.sendMessage([correctionPrompt])
    const correctedText = correctionResponse.response.text()
    const correctedResult = parseAuthenticationResponse(correctedText, startTime)
    if (correctedResult.confidence > authResult.confidence) return correctedResult
  }
  return authResult
  \<close>
\<close>

definition selfCorrect :: "env \<Rightarrow> GeminiConfig \<Rightarrow> message list \<Rightarrow> AuthenticationResult \<Rightarrow> error + AuthenticationResult" where
  "selfCorrect E mergedConfig sent authResult =
     (if of_int (confidence authResult) < selfCorrectionThreshold mergedConfig * 100 then
        (case chat E (sent @ [CorrectionMessage (confidence authResult)]) of
           Rejected \<Rightarrow> Inl TransportError
         | Blocked \<Rightarrow> Inl ResponseError
         | Answer functionCalls correctedText \<Rightarrow>
             (let correctedResult =
                    parseAuthenticationResponse correctedText (now E 0) (now E 3, now E 4)
              in if confidence correctedResult > confidence authResult
                 then Inr correctedResult else Inr authResult))
      else Inr authResult)"

text \<open>\<open>authenticateItem\<close>: \<open>createClient\<close> raises on an empty key before anything is sent.\<close>

definition authenticateItem :: "env \<Rightarrow> string \<Rightarrow> PartialConfig \<Rightarrow> error + AuthenticationResult" where
  "authenticateItem E imageData config =
     (let mergedConfig = mergeConfig (DEFAULT_CONFIG (envApiKey E) (envModel E)) config
      in if apiKey mergedConfig = [] then Inl ConfigError
         else (case initialParse E imageData of
                 Inl e \<Rightarrow> Inl e
               | Inr (sent, authResult) \<Rightarrow> selfCorrect E mergedConfig sent authResult))"

section \<open>Example runs\<close>

text \<open>
  Concrete surroundings on which the properties below are exercised: a caller who
  overrides nothing, two function calls, hosted models that keep asking for a
  tool, that improve on a low first answer, and that ask for two tools once, the
  arguments of two dating requests, and a registration number of 310 digits.
\<close>

definition noConfig :: PartialConfig where
  "noConfig = \<lparr>apiKey_opt = None, model_opt = None, selfCorrectionThreshold_opt = None\<rparr>"

definition lookupCall :: FunctionCall where
  "lookupCall = \<lparr>callName = ''rn_lookup'', callArgs = [''rn_number'' \<mapsto> ''RN 42850'']\<rparr>"

definition insistentEnv :: env where
  "insistentEnv =
     \<lparr>chat = (\<lambda>sent. Answer (Some [lookupCall]) ''Confidence: 80%''),
      random = (\<lambda>i j. (0, 0, 0)), now = (\<lambda>k. 0), envApiKey = Some ''key'', envModel = None\<rparr>"

definition nikeLookup :: RNLookupResult where
  "nikeLookup =
     \<lparr>rnNumber = ''RN 42850'', companyName = ''Nike Inc.'', registrationYear = Some 1970,
      calculatedYear = Some (Finite 1970), status = active\<rparr>"

definition correctingEnv :: env where
  "correctingEnv =
     \<lparr>chat = (\<lambda>sent. if length sent = 1 then Answer None ''Confidence: 60%''
                      else Answer None ''I am 85% confident''),
      random = (\<lambda>i j. (0, 0, 0)), now = (\<lambda>k. 0), envApiKey = Some ''key'', envModel = None\<rparr>"

definition marketCall :: FunctionCall where
  "marketCall =
     \<lparr>callName = ''market_search'', callArgs = [''brand'' \<mapsto> ''levis'', ''era'' \<mapsto> ''1980s'']\<rparr>"

definition toolsEnv :: env where
  "toolsEnv =
     \<lparr>chat = (\<lambda>sent. if length sent = 1 then Answer (Some [lookupCall, marketCall]) []
                      else Answer None ''Confidence: 95%''),
      random = (\<lambda>i j. (0, 0, 0)), now = (\<lambda>k. 0), envApiKey = Some ''key'', envModel = None\<rparr>"

definition chinaRolledHem :: args where
  "chinaRolledHem = [''construction_details'' \<mapsto> ''Made in China, rolled hem'']"

definition sixMarkers :: args where
  "sixMarkers =
     [''construction_details'' \<mapsto>
        ''chain stitch, selvedge, union label, made in china, coats & clark, rolled hem'']"

definition longRun :: args where
  "longRun = [''rn_number'' \<mapsto> replicate 310 CHR ''9'']"

section \<open>Evaluation of numbers and strings\<close>

lemma floor_divide_numeral_rat [simp]:
  "\<lfloor>numeral a / numeral b :: rat\<rfloor> = numeral a div numeral b"
  by (metis floor_divide_of_int_eq of_int_numeral)

lemma floor_minus_divide_numeral_rat [simp]:
  "\<lfloor>- (numeral a / numeral b) :: rat\<rfloor> = - numeral a div numeral b"
  by (metis divide_minus_left floor_divide_of_int_eq of_int_neg_numeral of_int_numeral)

lemma showNat_numeral [simp]:
  "showNat (numeral k) =
     (if (numeral k :: nat) < 10 then [char_of (48 + (numeral k :: nat))]
      else showNat (numeral k div 10) @ [char_of (48 + (numeral k :: nat) mod 10)])"
  by (rule showNat.simps)

lemma showNat_small [simp]: "showNat 0 = ''0''" "showNat (Suc 0) = ''1''"
  by (simp_all add: showNat.simps char_of_def bit_0)

lemma bits_0 [simp]: "bits 0 = 0"
  by (simp add: bits.simps)

lemma bits_1 [simp]: "bits (Suc 0) = 1"
  by (simp add: bits.simps)

lemma bits_numeral [simp]: "bits (numeral k) = Suc (bits (numeral k div 2))"
  by (subst bits.simps) simp

lemmas fl_eval = fl_def exponent_def roundEven_def ceiling_def Let_def

lemmas rn_eval =
  rnLookup_def orElse_def isDigit_def parseInt_def digitsValue_def digitValue_def double_def
  fl_eval round_def

section \<open>Properties of the arithmetic of doubles\<close>

lemma bits_pos: "0 < n \<Longrightarrow> 0 < bits n"
  by (subst bits.simps) simp

text \<open>\<open>bits n\<close> is the length of \<open>n\<close> in binary.\<close>

lemma bits_bounds: "0 < n \<Longrightarrow> 2 ^ (bits n - 1) \<le> n \<and> n < 2 ^ bits n"
proof (induction n rule: bits.induct)
  case (1 n)
  show ?case
  proof (cases "n div 2 = 0")
    case True
    with 1(2) have "n = 1"
      by linarith
    then show ?thesis
      by simp
  next
    case False
    with 1 have IH: "2 ^ (bits (n div 2) - 1) \<le> n div 2 \<and> n div 2 < 2 ^ bits (n div 2)"
      by simp
    have b: "bits n = Suc (bits (n div 2))"
      using 1(2) by (subst bits.simps) simp
    from False have "0 < bits (n div 2)"
      by (simp add: bits_pos)
    then have p: "(2 :: nat) * 2 ^ (bits (n div 2) - 1) = 2 ^ bits (n div 2)"
      by (cases "bits (n div 2)") simp_all
    from IH have "2 * 2 ^ (bits (n div 2) - 1) \<le> n" "n < 2 * 2 ^ bits (n div 2)"
      by linarith+
    with p b show ?thesis
      by simp
  qed
qed

lemma bits_bounds_rat:
  assumes "0 < n"
  shows "(2 :: rat) ^ (bits n - 1) \<le> of_nat n" and "(of_nat n :: rat) + 1 \<le> 2 ^ bits n"
proof -
  from bits_bounds [OF assms] have "2 ^ (bits n - 1) \<le> n" "Suc n \<le> 2 ^ bits n"
    by simp_all
  from this [THEN of_nat_mono, where 'a = rat]
  show "(2 :: rat) ^ (bits n - 1) \<le> of_nat n" and "(of_nat n :: rat) + 1 \<le> 2 ^ bits n"
    by simp_all
qed

text \<open>A positive \<open>x\<close> lies between \<open>2 ^ exponent x\<close> and the next power of two.\<close>

lemma exponent_bounds:
  assumes "0 < x"
  shows "2 powi exponent x \<le> x \<and> x < 2 powi (exponent x + 1)"
proof (cases "1 \<le> x")
  case True
  define n where "n = nat \<lfloor>x\<rfloor>"
  from True have "1 \<le> \<lfloor>x\<rfloor>"
    by simp
  then have n: "0 < n" "(of_nat n :: rat) = of_int \<lfloor>x\<rfloor>"
    unfolding n_def by simp_all
  have x: "of_nat n \<le> x" "x < of_nat n + 1"
    unfolding n(2) by linarith+
  have "exponent x = int (bits n) - 1"
    using True by (simp add: exponent_def n_def)
  with bits_pos [OF n(1)] have "exponent x = int (bits n - 1)" "exponent x + 1 = int (bits n)"
    by linarith+
  then have "(2 :: rat) powi exponent x = 2 ^ (bits n - 1)"
    "(2 :: rat) powi (exponent x + 1) = 2 ^ bits n"
    by (simp_all only: power_int_of_nat)
  with bits_bounds_rat [OF n(1)] x show ?thesis
    by linarith
next
  case False
  define c where "c = \<lceil>1 / x\<rceil>"
  define n where "n = nat (c - 1)"
  from False assms have "1 < 1 / x"
    by simp
  then have "2 \<le> c"
    unfolding c_def by (simp add: le_ceiling_iff)
  then have n: "0 < n" "(of_nat n :: rat) = of_int c - 1"
    unfolding n_def by simp_all
  have c: "of_nat n < 1 / x" "1 / x \<le> of_nat n + 1"
    unfolding n(2) c_def by linarith+
  have e: "exponent x = - int (bits n)"
    using False by (simp add: exponent_def n_def c_def)
  with bits_pos [OF n(1)] have "exponent x + 1 = - int (bits n - 1)"
    by linarith
  with e have p: "(2 :: rat) powi exponent x = 1 / 2 ^ bits n"
    "(2 :: rat) powi (exponent x + 1) = 1 / 2 ^ (bits n - 1)"
    by (simp_all only: power_int_minus_divide power_int_of_nat)
  from bits_bounds_rat [OF n(1)] c have "(2 :: rat) ^ (bits n - 1) < 1 / x" "1 / x \<le> 2 ^ bits n"
    by linarith+
  with assms have "x < 1 / 2 ^ (bits n - 1)" "1 / 2 ^ bits n \<le> x"
    by (simp_all add: field_simps)
  with p show ?thesis
    by simp
qed

lemma roundEven_error: "\<bar>of_int (roundEven y) - y\<bar> \<le> 1 / 2"
proof -
  have "of_int \<lfloor>y\<rfloor> \<le> y" "y < of_int \<lfloor>y\<rfloor> + 1"
    by linarith+
  then show ?thesis
    unfolding roundEven_def Let_def by (simp add: abs_le_iff)
qed

lemma roundEven_of_int [simp]: "roundEven (of_int z) = z"
  by (simp add: roundEven_def)

lemma fl_pos:
  "0 < x \<Longrightarrow>
   fl x = of_int (roundEven (x / 2 powi (exponent x - 52))) * 2 powi (exponent x - 52)"
  by (simp add: fl_def Let_def)

text \<open>Rounding changes a number by at most one part in \<open>2 ^ 53\<close>.\<close>

lemma fl_error_pos:
  assumes "0 < x"
  shows "\<bar>fl x - x\<bar> \<le> x / 2 ^ 53"
proof -
  define u :: rat where "u = 2 powi (exponent x - 52)"
  have u: "0 < u"
    by (simp add: u_def)
  have "2 powi exponent x = u * 2 ^ 52"
    unfolding u_def by (simp add: power_int_diff)
  with exponent_bounds [OF assms] have x: "u * 2 ^ 52 \<le> x"
    by simp
  have "fl x - x = (of_int (roundEven (x / u)) - x / u) * u"
    using u by (simp add: fl_pos [OF assms] u_def [symmetric] field_simps)
  then have "\<bar>fl x - x\<bar> = \<bar>of_int (roundEven (x / u)) - x / u\<bar> * u"
    using u by (simp add: abs_mult)
  also have "\<dots> \<le> 1 / 2 * u"
    using u roundEven_error [of "x / u"] by (simp add: mult_right_mono)
  also have "\<dots> \<le> x / 2 ^ 53"
    using x by simp
  finally show ?thesis .
qed

lemma fl_error: "0 \<le> x \<Longrightarrow> \<bar>fl x - x\<bar> \<le> x / 2 ^ 53"
  using fl_error_pos [of x] by (cases "x = 0") (simp_all add: fl_def)

lemma fl_bounds:
  assumes "0 \<le> x"
  shows "x - x / 9007199254740992 \<le> fl x" and "fl x \<le> x + x / 9007199254740992"
proof -
  have "(2 :: rat) ^ 53 = 9007199254740992"
    by simp
  with fl_error [OF assms] have "\<bar>fl x - x\<bar> \<le> x / 9007199254740992"
    by simp
  then show "x - x / 9007199254740992 \<le> fl x" and "fl x \<le> x + x / 9007199254740992"
    by linarith+
qed

lemma fl_nonneg: "0 \<le> x \<Longrightarrow> 0 \<le> fl x"
  using fl_bounds(1) [of x] by linarith

lemma fl_positive: "0 < x \<Longrightarrow> 0 < fl x"
  using fl_bounds(1) [of x] by linarith

text \<open>An integer below \<open>2 ^ 53\<close> is a double.\<close>

lemma fl_of_nat:
  assumes "n < 2 ^ 53"
  shows "fl (of_nat n) = of_nat n"
proof (cases "n = 0")
  case True
  then show ?thesis
    by (simp add: fl_def)
next
  case False
  define x :: rat where "x = of_nat n"
  have x: "0 < x" "x < 2 powi 53"
    using False assms unfolding x_def by (simp_all add: of_nat_less_numeral_power_cancel_iff)
  from exponent_bounds [OF x(1)] x(2) have "(2 :: rat) powi exponent x < 2 powi 53"
    by linarith
  with power_int_increasing [of 53 "exponent x" "2 :: rat"] have "exponent x < 53"
    by (cases "exponent x < 53") simp_all
  then have p: "2 powi (exponent x - 52) = 1 / (2 :: rat) ^ nat (52 - exponent x)"
    by (simp add: power_int_def inverse_eq_divide power_divide)
  then have "x / 2 powi (exponent x - 52) = of_int (int n * 2 ^ nat (52 - exponent x))"
    by (simp add: x_def)
  then have "roundEven (x / 2 powi (exponent x - 52)) = int n * 2 ^ nat (52 - exponent x)"
    by (simp only: roundEven_of_int)
  then show ?thesis
    unfolding x_def [symmetric] fl_pos [OF x(1)] using p by (simp add: x_def)
qed

lemma double_of_nat:
  assumes "n < 2 ^ 53"
  shows "double (of_nat n) = Finite (of_nat n)"
proof -
  from assms have "(of_nat n :: rat) < 2 ^ 53"
    by (simp add: of_nat_less_numeral_power_cancel_iff)
  moreover have "(2 :: rat) ^ 53 \<le> 2 ^ 1024"
    by (rule power_increasing) simp_all
  ultimately have "\<not> (2 :: rat) ^ 1024 \<le> of_nat n"
    by linarith
  then show ?thesis
    unfolding double_def fl_of_nat [OF assms] by (simp only: if_False)
qed

text \<open>A number from \<open>2 ^ 1025\<close> on is beyond the doubles.\<close>

lemma double_Infinity:
  assumes "2 ^ 1025 \<le> x"
  shows "double x = Infinity"
proof -
  have "(0 :: rat) < 2 ^ 1025"
    by simp
  with assms have "0 < x"
    by linarith
  then have "0 \<le> x"
    by simp
  from fl_bounds(1) [OF this] have "x / 2 \<le> fl x"
    using \<open>0 < x\<close> by linarith
  moreover have "(2 :: rat) ^ 1025 = 2 * 2 ^ 1024"
    by simp
  ultimately have "2 ^ 1024 \<le> fl x"
    using assms by linarith
  then show ?thesis
    by (simp add: double_def)
qed

text \<open>
  The accumulated error of a computation: \<open>near k x y\<close> is kept by the operations, with
  one more rounding for each \<open>fl\<close>, and bounds the distance of \<open>x\<close> from \<open>y\<close>.
\<close>

lemma shrink_bounds: "0 < shrink" "shrink \<le> 1" "0 \<le> shrink ^ k" "0 < shrink ^ k"
  by (simp_all add: shrink_def)

lemma near_refl: "0 \<le> y \<Longrightarrow> near 0 y y"
  by (simp add: near_def)

lemma near_nonneg:
  assumes "near k x y"
  shows "0 \<le> x"
proof -
  have "0 \<le> y * shrink ^ k"
    using assms shrink_bounds(3) [of k] by (simp add: near_def)
  with assms show ?thesis
    unfolding near_def by linarith
qed

lemma near_mono:
  assumes "near k x y" "k \<le> j"
  shows "near j x y"
proof -
  from assms(1) have n: "0 \<le> y" "y * shrink ^ k \<le> x" "x * shrink ^ k \<le> y"
    by (simp_all add: near_def)
  from near_nonneg [OF assms(1)] have x: "0 \<le> x" .
  from assms(2) shrink_bounds have p: "shrink ^ j \<le> shrink ^ k"
    by (simp add: power_decreasing)
  from p n(1) have "y * shrink ^ j \<le> y * shrink ^ k"
    by (rule mult_left_mono)
  moreover from p x have "x * shrink ^ j \<le> x * shrink ^ k"
    by (rule mult_left_mono)
  ultimately show ?thesis
    using n unfolding near_def by linarith
qed

lemma near_fl:
  assumes "near k x y"
  shows "near (Suc k) (fl x) y"
proof -
  have L: "shrink = 1 - 1 / 9007199254740992"
    by (simp add: shrink_def)
  from assms have n: "0 \<le> y" "y * shrink ^ k \<le> x" "x * shrink ^ k \<le> y"
    by (simp_all add: near_def)
  from near_nonneg [OF assms] have x: "0 \<le> x" .
  from fl_bounds [OF x] have f: "x * shrink \<le> fl x" "fl x * shrink \<le> x"
    unfolding L using x by (simp_all add: field_simps)
  from f(2) shrink_bounds(3) [of k] have "fl x * shrink * shrink ^ k \<le> x * shrink ^ k"
    by (rule mult_right_mono)
  with n(3) have a: "fl x * shrink ^ Suc k \<le> y"
    by (simp add: mult.assoc)
  from n(2) shrink_bounds(1) have "y * shrink ^ k * shrink \<le> x * shrink"
    by (simp add: mult_right_mono)
  with f(1) have b: "y * shrink ^ Suc k \<le> fl x"
    by (simp add: mult_ac)
  from a b n(1) show ?thesis
    unfolding near_def by simp
qed

lemma near_add:
  assumes "near k x y" "near k x' y'"
  shows "near k (x + x') (y + y')"
  using assms unfolding near_def by (simp add: distrib_right add_mono)

lemma near_mult:
  assumes "near k x y" "near j x' y'"
  shows "near (k + j) (x * x') (y * y')"
proof -
  from assms have n: "0 \<le> y" "y * shrink ^ k \<le> x" "x * shrink ^ k \<le> y" "0 \<le> y'"
    "y' * shrink ^ j \<le> x'" "x' * shrink ^ j \<le> y'"
    by (simp_all add: near_def)
  from near_nonneg [OF assms(1)] near_nonneg [OF assms(2)] have x: "0 \<le> x" "0 \<le> x'" .
  from n x shrink_bounds(3) have "(y * shrink ^ k) * (y' * shrink ^ j) \<le> x * x'"
    by (intro mult_mono) simp_all
  moreover from n x shrink_bounds(3) have "(x * shrink ^ k) * (x' * shrink ^ j) \<le> y * y'"
    by (intro mult_mono) simp_all
  ultimately show ?thesis
    using n unfolding near_def by (simp add: power_add mult_ac)
qed

lemma near_divide:
  assumes "near k x y" "near j x' y'" "0 < y'"
  shows "near (k + j) (x / x') (y / y')"
proof -
  from assms have n: "0 \<le> y" "y * shrink ^ k \<le> x" "x * shrink ^ k \<le> y"
    "y' * shrink ^ j \<le> x'" "x' * shrink ^ j \<le> y'"
    by (simp_all add: near_def)
  from near_nonneg [OF assms(1)] have x: "0 \<le> x" .
  from assms(3) shrink_bounds(4) [of j] have "0 < y' * shrink ^ j"
    by simp
  with n have x': "0 < x'"
    by linarith
  from n x shrink_bounds(3) x' have "(y * shrink ^ k) * (x' * shrink ^ j) \<le> x * y'"
    by (intro mult_mono) simp_all
  then have a: "y / y' * shrink ^ (k + j) \<le> x / x'"
    using x' assms(3) by (simp add: field_simps power_add)
  from n x shrink_bounds(3) assms(3) have "(x * shrink ^ k) * (y' * shrink ^ j) \<le> y * x'"
    by (intro mult_mono) simp_all
  then have b: "x / x' * shrink ^ (k + j) \<le> y / y'"
    using x' assms(3) by (simp add: field_simps power_add)
  from a b n(1) assms(3) show ?thesis
    unfolding near_def by simp
qed

lemma near_min:
  assumes "near k x y" "near k x' y'"
  shows "near k (min x x') (min y y')"
proof -
  from assms have n: "0 \<le> y" "y * shrink ^ k \<le> x" "x * shrink ^ k \<le> y" "0 \<le> y'"
    "y' * shrink ^ k \<le> x'" "x' * shrink ^ k \<le> y'"
    by (simp_all add: near_def)
  from shrink_bounds(3) [of k] have "min y y' * shrink ^ k = min (y * shrink ^ k) (y' * shrink ^ k)"
    "min x x' * shrink ^ k = min (x * shrink ^ k) (x' * shrink ^ k)"
    by (simp_all add: min_mult_distrib_right)
  with n show ?thesis
    unfolding near_def by (auto simp: min_le_iff_disj)
qed

lemma bernoulli:
  fixes e :: rat
  assumes "0 \<le> e" "e \<le> 1"
  shows "1 - of_nat k * e \<le> (1 - e) ^ k"
proof (induction k)
  case 0
  show ?case
    by simp
next
  case (Suc k)
  from assms have "(1 - of_nat k * e) * (1 - e) \<le> (1 - e) ^ k * (1 - e)"
    by (intro mult_right_mono Suc) simp
  moreover have "0 \<le> of_nat k * (e * e)"
    using assms by simp
  then have "1 - of_nat (Suc k) * e \<le> (1 - of_nat k * e) * (1 - e)"
    by (simp add: algebra_simps)
  ultimately show ?case
    by (simp add: mult.commute)
qed

lemma near_abs:
  assumes "near k x y" "of_nat k \<le> (2 :: rat) ^ 52"
  shows "\<bar>x - y\<bar> \<le> of_nat k / 2 ^ 52 * y"
proof -
  define t :: rat where "t = of_nat k * (1 / 2 ^ 53)"
  from assms(1) have n: "0 \<le> y" "y * shrink ^ k \<le> x" "x * shrink ^ k \<le> y"
    by (simp_all add: near_def)
  from near_nonneg [OF assms(1)] have x: "0 \<le> x" .
  have t: "0 \<le> t" "t \<le> 1 / 2"
    using assms(2) by (simp_all add: t_def)
  have "1 - t \<le> shrink ^ k"
    unfolding t_def shrink_def by (rule bernoulli) simp_all
  then have "y * (1 - t) \<le> y * shrink ^ k" "x * (1 - t) \<le> x * shrink ^ k"
    using n(1) x by (simp_all add: mult_left_mono)
  with n have a: "y * (1 - t) \<le> x" "x * (1 - t) \<le> y"
    by linarith+
  have "0 \<le> t * (1 - 2 * t)"
    using t by (intro mult_nonneg_nonneg) simp_all
  then have "1 \<le> (1 - t) * (1 + 2 * t)"
    by (simp add: algebra_simps)
  with x have "x * 1 \<le> x * ((1 - t) * (1 + 2 * t))"
    by (rule mult_left_mono [rotated])
  also have "\<dots> = x * (1 - t) * (1 + 2 * t)"
    by simp
  also have "\<dots> \<le> y * (1 + 2 * t)"
    using a(2) t by (intro mult_right_mono) simp_all
  finally have u: "x - y \<le> 2 * t * y"
    by (simp add: algebra_simps)
  have "0 \<le> t * y"
    using t n(1) by simp
  with a(1) have l: "y - x \<le> 2 * t * y"
    by (simp add: algebra_simps)
  from u l have "\<bar>x - y\<bar> \<le> 2 * t * y"
    by linarith
  moreover have "2 * t = of_nat k / 2 ^ 52"
    by (simp add: t_def)
  ultimately show ?thesis
    by simp
qed

section \<open>Properties of the registration number lookup\<close>

lemma takeWhile_filter_same: "takeWhile P (filter P s) = filter P s"
  by (induction s) auto

text \<open>Parsing fails exactly when the input holds no digit at all.\<close>

lemma parseInt_cleaned:
  "parseInt (filter isDigit s) =
     (if filter isDigit s = [] then None
      else Some (double (of_nat (digitsValue (filter isDigit s)))))"
  by (simp add: parseInt_def takeWhile_filter_same)

lemma rnLookup_invalid:
  "filter isDigit (orElse (a ''rn_number'') '''') = [] \<Longrightarrow>
   rnLookup a =
     \<lparr>rnNumber = orElse (a ''rn_number'') '''', companyName = ''Invalid RN number'',
      registrationYear = None, calculatedYear = None, status = not_found\<rparr>"
  by (simp add: rnLookup_def parseInt_cleaned Let_def)

lemma calculatedYear_rnLookup:
  "filter isDigit (orElse (a ''rn_number'') '''') \<noteq> [] \<Longrightarrow>
   calculatedYear (rnLookup a) =
     calculateRNYear (double (of_nat (digitsValue (filter isDigit (orElse (a ''rn_number'') '''')))))"
  by (simp add: rnLookup_def parseInt_cleaned Let_def)

lemma rnLookup_nike: "rnLookup [''rn_number'' \<mapsto> ''RN 42850''] = nikeLookup"
  by (simp add: rn_eval nikeLookup_def RN_DATABASE_def truthyYear_def truthyNumber_def)

text \<open>
  A quotient \<open>k / 2635\<close> is at least \<open>1 / 5270\<close> away from every number halfway between
  two integers, so a number that close to it rounds to the same integer.
\<close>

lemma odd_le_even: "2 * j + 1 \<le> 2 * k \<Longrightarrow> j + 1 \<le> k" for j k :: int
  by presburger

lemma even_less_odd: "2 * k < 2 * j + 1 \<Longrightarrow> k \<le> j" for j k :: int
  by presburger

lemma round_stable:
  fixes r :: rat
  assumes "\<bar>r - of_int k / 2635\<bar> < 1 / 5270"
  shows "round r = round (of_int k / 2635 :: rat)"
proof -
  define m where "m = round (of_int k / 2635 :: rat)"
  have "of_int m - 1 / 2 \<le> (of_int k / 2635 :: rat)" "(of_int k / 2635 :: rat) < of_int m + 1 / 2"
    unfolding m_def
    using of_int_round_le [of "of_int k / 2635 :: rat"] of_int_round_gt [of "of_int k / 2635 :: rat"]
    by linarith+
  then have "(of_int (5270 * m - 2635) :: rat) \<le> of_int (2 * k)"
    "(of_int (2 * k) :: rat) < of_int (5270 * m + 2635)"
    by (simp_all add: field_simps)
  then have "5270 * m - 2635 \<le> 2 * k" "2 * k < 5270 * m + 2635"
    by (simp_all only: of_int_le_iff of_int_less_iff)
  then have "2 * (2635 * m - 1318) + 1 \<le> 2 * k" "2 * k < 2 * (2635 * m + 1317) + 1"
    by simp_all
  then have "2635 * m - 1318 + 1 \<le> k" "k \<le> 2635 * m + 1317"
    by (simp_all only: odd_le_even even_less_odd)
  then have "5270 * m - 2634 \<le> 2 * k" "2 * k \<le> 5270 * m + 2634"
    by simp_all
  then have "(of_int (5270 * m - 2634) :: rat) \<le> of_int (2 * k)"
    "(of_int (2 * k) :: rat) \<le> of_int (5270 * m + 2634)"
    by (simp_all only: of_int_le_iff)
  then have "of_int m - 1 / 2 + 1 / 5270 \<le> (of_int k / 2635 :: rat)"
    "(of_int k / 2635 :: rat) \<le> of_int m + 1 / 2 - 1 / 5270"
    by (simp_all add: field_simps)
  with assms have "of_int m > r - 1 / 2" "of_int m \<le> r + 1 / 2"
    by linarith+
  then have "round r = m"
    by (rule round_unique)
  then show ?thesis
    by (simp add: m_def)
qed

text \<open>
  Below \<open>10 ^ 15\<close> the three roundings of \<open>calculateRNYear\<close> do not change the year: the
  difference is exact, and the quotient and the sum are off by less than \<open>1 / 5270\<close>
  together.
\<close>

lemma fl_twice:
  fixes q r b :: rat
  assumes "b - b / 9007199254740992 \<le> q" "q \<le> b + b / 9007199254740992"
    and "q + 1959 - (q + 1959) / 9007199254740992 \<le> r"
    "r \<le> q + 1959 + (q + 1959) / 9007199254740992"
    and "0 \<le> b" "b < 379506641367"
  shows "\<bar>r - (b + 1959)\<bar> < 1 / 5270"
proof -
  from assms have "r - (b + 1959) < 1 / 5270" "b + 1959 - r < 1 / 5270"
    by (simp_all add: field_simps)
  then show ?thesis
    by linarith
qed

lemma calculateRNYear_exact:
  assumes "13670 \<le> n" "n < 10 ^ 15"
  shows "round (fl (fl (fl (of_nat n - 13670) / 2635) + 1959)) =
         round ((of_nat n - 13670) / 2635 + (1959 :: rat))"
proof -
  define a :: rat where "a = of_nat (n - 13670)"
  define b where "b = a / 2635"
  define q where "q = fl b"
  define r where "r = fl (q + 1959)"
  have a: "of_nat n - 13670 = a"
    using assms(1) by (simp add: a_def of_nat_diff)
  have "n - 13670 < 10 ^ 15"
    using assms by linarith
  then have "(of_nat (n - 13670) :: rat) < of_nat (10 ^ 15)"
    unfolding of_nat_less_iff .
  then have b: "0 \<le> b" "b < 379506641367"
    by (simp_all add: a_def b_def)
  have "n - 13670 < 2 ^ 53"
    using assms by simp
  then have fa: "fl a = a"
    unfolding a_def by (rule fl_of_nat)
  from fl_bounds [OF b(1)] have q: "b - b / 9007199254740992 \<le> q" "q \<le> b + b / 9007199254740992"
    unfolding q_def .
  have "0 \<le> q + 1959"
    using q b by linarith
  from fl_bounds [OF this] have r: "q + 1959 - (q + 1959) / 9007199254740992 \<le> r"
    "r \<le> q + 1959 + (q + 1959) / 9007199254740992"
    unfolding r_def .
  have v: "b + 1959 = of_int (int (n - 13670) + 5161965) / 2635"
    by (simp add: a_def b_def)
  from q r b have "\<bar>r - (b + 1959)\<bar> < 1 / 5270"
    by (rule fl_twice)
  then have "round r = round (b + 1959)"
    unfolding v by (rule round_stable)
  then show ?thesis
    unfolding a fa q_def r_def b_def .
qed

text \<open>
  C8, as stated, fails: the quotient and the sum are rounded to doubles before
  \<open>Math.round\<close>. For the input \<open>8999999999999137\<close> the formula gives
  3415559774249.4998, which rounds to 3415559774249; the doubles are 3415559772290.5
  and 3415559774249.5, and the formula year returned is 3415559774250.
\<close>

theorem rnLookup_formula_counterexample:
  "digitsValue (filter isDigit ''8999999999999137'') = 8999999999999137 \<and>
   round ((8999999999999137 - 13670) / 2635 + (1959 :: rat)) = 3415559774249 \<and>
   fl ((8999999999999137 - 13670) / 2635) = 6831119544581 / 2 \<and>
   fl (6831119544581 / 2 + 1959) = 6831119548499 / 2 \<and>
   calculatedYear (rnLookup [''rn_number'' \<mapsto> ''8999999999999137'']) =
     Some (Finite 3415559774250)"
  by (simp add: rn_eval)

text \<open>The number spelt by a run of nines, and what a run of 310 nines yields.\<close>

lemma digitsValue_nines: "Suc (digitsValue (replicate n CHR ''9'')) = 10 ^ n"
proof -
  have "foldl (\<lambda>a c. 10 * a + digitValue c) z (replicate n CHR ''9'') + 1 = (z + 1) * 10 ^ n" for z
    by (induction n arbitrary: z) (simp_all add: digitValue_def algebra_simps)
  from this [of 0] show ?thesis
    by (simp add: digitsValue_def)
qed

lemma rnLookup_longRun:
  "filter isDigit (orElse (longRun ''rn_number'') '''') = replicate 310 CHR ''9''"
  "double (of_nat (digitsValue (replicate 310 CHR ''9''))) = Infinity"
proof -
  have "replicate 310 CHR ''9'' \<noteq> []"
    by simp
  then show "filter isDigit (orElse (longRun ''rn_number'') '''') = replicate 310 CHR ''9''"
    by (simp add: longRun_def orElse_def isDigit_def)
  from digitsValue_nines [of 310] have "digitsValue (replicate 310 CHR ''9'') = 10 ^ 310 - 1"
    by linarith
  then show "double (of_nat (digitsValue (replicate 310 CHR ''9''))) = Infinity"
    by (intro double_Infinity) simp
qed

text \<open>
  C8, amended. For every input, \<open>rnLookup\<close> strips the characters that are no digits and
  parses the rest. When no digit is left, the result is the \<open>not_found\<close> record in which
  both years are \<open>null\<close>; no error is raised (the function has no error result).
  Otherwise the digits spell a number \<open>n\<close>. When \<open>n\<close> is below \<open>10 ^ 15\<close>, the formula
  year is \<open>null\<close> for \<open>n < 13670\<close> and \<open>round ((n - 13670) / 2635 + 1959)\<close> otherwise. For
  every \<open>n\<close>, the formula year is computed from the double \<open>x\<close> nearest to \<open>n\<close>: it is
  \<open>null\<close> for \<open>x < 13670\<close>, otherwise \<open>Math.round\<close> of the difference, the quotient and
  the sum, each rounded to a double, and \<open>Infinity\<close> when \<open>x\<close> is. The inputs 13670 and
  16305 give 1959 and 1960, and 13669 gives \<open>null\<close>.
\<close>

theorem rnLookup_registration_formula:
  fixes a :: args
  defines "cleaned \<equiv> filter isDigit (orElse (a ''rn_number'') '''')"
  shows "(parseInt cleaned = None) = (cleaned = []) \<and>
     (cleaned = [] \<longrightarrow>
        rnLookup a =
          \<lparr>rnNumber = orElse (a ''rn_number'') '''', companyName = ''Invalid RN number'',
           registrationYear = None, calculatedYear = None, status = not_found\<rparr>) \<and>
     (cleaned \<noteq> [] \<and> digitsValue cleaned < 10 ^ 15 \<longrightarrow>
        calculatedYear (rnLookup a) =
          (if digitsValue cleaned < 13670 then None
           else Some (Finite (of_int (round
                  ((of_nat (digitsValue cleaned) - 13670) / 2635 + (1959 :: rat))))))) \<and>
     (\<forall>x. cleaned \<noteq> [] \<and> double (of_nat (digitsValue cleaned)) = Finite x \<longrightarrow>
        calculatedYear (rnLookup a) =
          (if x < 13670 then None
           else Some (Finite (of_int (round (fl (fl (fl (x - 13670) / 2635) + 1959))))))) \<and>
     (cleaned \<noteq> [] \<and> double (of_nat (digitsValue cleaned)) = Infinity \<longrightarrow>
        calculatedYear (rnLookup a) = Some Infinity) \<and>
     calculatedYear (rnLookup [''rn_number'' \<mapsto> ''13670'']) = Some (Finite 1959) \<and>
     calculatedYear (rnLookup [''rn_number'' \<mapsto> ''16305'']) = Some (Finite 1960) \<and>
     calculatedYear (rnLookup [''rn_number'' \<mapsto> ''13669'']) = None"
proof (intro conjI allI impI)
  show "(parseInt cleaned = None) = (cleaned = [])"
    unfolding cleaned_def by (simp add: parseInt_cleaned)
next
  assume "cleaned = []"
  then show "rnLookup a =
          \<lparr>rnNumber = orElse (a ''rn_number'') '''', companyName = ''Invalid RN number'',
           registrationYear = None, calculatedYear = None, status = not_found\<rparr>"
    unfolding cleaned_def by (rule rnLookup_invalid)
next
  assume h: "cleaned \<noteq> [] \<and> digitsValue cleaned < 10 ^ 15"
  then have y: "calculatedYear (rnLookup a) = calculateRNYear (double (of_nat (digitsValue cleaned)))"
    unfolding cleaned_def by (simp add: calculatedYear_rnLookup)
  from h have "digitsValue cleaned < 2 ^ 53"
    by simp
  then have d: "double (of_nat (digitsValue cleaned)) = Finite (of_nat (digitsValue cleaned))"
    by (rule double_of_nat)
  show "calculatedYear (rnLookup a) =
          (if digitsValue cleaned < 13670 then None
           else Some (Finite (of_int (round
                  ((of_nat (digitsValue cleaned) - 13670) / 2635 + (1959 :: rat))))))"
  proof (cases "digitsValue cleaned < 13670")
    case True
    then have "(of_nat (digitsValue cleaned) :: rat) < 13670"
      by (simp add: of_nat_less_numeral_iff)
    with True show ?thesis
      unfolding y d by simp
  next
    case False
    then have "\<not> (of_nat (digitsValue cleaned) :: rat) < 13670"
      by (simp add: of_nat_less_numeral_iff)
    moreover from False h have "round (fl (fl (fl (of_nat (digitsValue cleaned) - 13670) / 2635) + 1959)) =
         round ((of_nat (digitsValue cleaned) - 13670) / 2635 + (1959 :: rat))"
      by (intro calculateRNYear_exact) simp_all
    ultimately show ?thesis
      unfolding y d using False by simp
  qed
next
  fix x
  assume "cleaned \<noteq> [] \<and> double (of_nat (digitsValue cleaned)) = Finite x"
  then show "calculatedYear (rnLookup a) =
          (if x < 13670 then None
           else Some (Finite (of_int (round (fl (fl (fl (x - 13670) / 2635) + 1959))))))"
    unfolding cleaned_def by (simp add: calculatedYear_rnLookup)
next
  assume "cleaned \<noteq> [] \<and> double (of_nat (digitsValue cleaned)) = Infinity"
  then show "calculatedYear (rnLookup a) = Some Infinity"
    unfolding cleaned_def by (simp add: calculatedYear_rnLookup)
next
  show "calculatedYear (rnLookup [''rn_number'' \<mapsto> ''13670'']) = Some (Finite 1959)"
    by (simp add: rn_eval)
  show "calculatedYear (rnLookup [''rn_number'' \<mapsto> ''16305'']) = Some (Finite 1960)"
    by (simp add: rn_eval)
  show "calculatedYear (rnLookup [''rn_number'' \<mapsto> ''13669'']) = None"
    by (simp add: rn_eval)
qed

theorem rnLookup_registration_formula_witness:
  "rnLookup [''rn_number'' \<mapsto> ''WPL n/a''] =
     \<lparr>rnNumber = ''WPL n/a'', companyName = ''Invalid RN number'',
      registrationYear = None, calculatedYear = None, status = not_found\<rparr> \<and>
   calculatedYear (rnLookup [''rn_number'' \<mapsto> ''RN 42850'']) = Some (Finite 1970) \<and>
   calculatedYear (rnLookup [''rn_number'' \<mapsto> ''RN 9000'']) = None \<and>
   calculatedYear (rnLookup [''rn_number'' \<mapsto> ''8999999999999137'']) =
     Some (Finite 3415559774250) \<and>
   calculatedYear (rnLookup longRun) = Some Infinity"
proof -
  have c1: "filter isDigit (orElse ([''rn_number'' \<mapsto> ''WPL n/a''] ''rn_number'') '''') = []"
    by (simp add: orElse_def isDigit_def)
  have c2: "filter isDigit (orElse ([''rn_number'' \<mapsto> ''RN 42850''] ''rn_number'') '''') = ''42850''"
    by (simp add: orElse_def isDigit_def)
  have c3: "filter isDigit (orElse ([''rn_number'' \<mapsto> ''RN 9000''] ''rn_number'') '''') = ''9000''"
    by (simp add: orElse_def isDigit_def)
  have c4: "filter isDigit (orElse ([''rn_number'' \<mapsto> ''8999999999999137''] ''rn_number'') '''') =
      ''8999999999999137''"
    by (simp add: orElse_def isDigit_def)
  have v: "digitsValue ''42850'' = 42850" "digitsValue ''9000'' = 9000"
    "digitsValue ''8999999999999137'' = 8999999999999137"
    by (simp_all add: digitsValue_def digitValue_def)
  have d: "double (of_nat 8999999999999137) = Finite 8999999999999137"
    using double_of_nat [of 8999999999999137] by simp
  have r: "round ((of_nat 42850 - 13670) / 2635 + (1959 :: rat)) = 1970"
    "round (fl (fl (fl (8999999999999137 - 13670) / 2635) + 1959)) = 3415559774250"
    by (simp_all add: fl_eval round_def)
  from rnLookup_registration_formula [of "[''rn_number'' \<mapsto> ''WPL n/a'']"]
  have "rnLookup [''rn_number'' \<mapsto> ''WPL n/a''] =
     \<lparr>rnNumber = orElse ([''rn_number'' \<mapsto> ''WPL n/a''] ''rn_number'') '''',
      companyName = ''Invalid RN number'', registrationYear = None, calculatedYear = None,
      status = not_found\<rparr>"
    unfolding c1 by blast
  then have w1: "rnLookup [''rn_number'' \<mapsto> ''WPL n/a''] =
     \<lparr>rnNumber = ''WPL n/a'', companyName = ''Invalid RN number'',
      registrationYear = None, calculatedYear = None, status = not_found\<rparr>"
    by (simp add: orElse_def)
  from rnLookup_registration_formula [of "[''rn_number'' \<mapsto> ''RN 42850'']"]
  have "''42850'' \<noteq> [] \<and> (42850 :: nat) < 10 ^ 15 \<longrightarrow>
      calculatedYear (rnLookup [''rn_number'' \<mapsto> ''RN 42850'']) =
        (if (42850 :: nat) < 13670 then None
         else Some (Finite (of_int (round ((of_nat 42850 - 13670) / 2635 + (1959 :: rat))))))"
    unfolding c2 v by blast
  then have w2: "calculatedYear (rnLookup [''rn_number'' \<mapsto> ''RN 42850'']) = Some (Finite 1970)"
    unfolding r by simp
  from rnLookup_registration_formula [of "[''rn_number'' \<mapsto> ''RN 9000'']"]
  have "''9000'' \<noteq> [] \<and> (9000 :: nat) < 10 ^ 15 \<longrightarrow>
      calculatedYear (rnLookup [''rn_number'' \<mapsto> ''RN 9000'']) =
        (if (9000 :: nat) < 13670 then None
         else Some (Finite (of_int (round ((of_nat 9000 - 13670) / 2635 + (1959 :: rat))))))"
    unfolding c3 v by blast
  then have w3: "calculatedYear (rnLookup [''rn_number'' \<mapsto> ''RN 9000'']) = None"
    by simp
  from rnLookup_registration_formula [of "[''rn_number'' \<mapsto> ''8999999999999137'']"]
  have "\<forall>x. ''8999999999999137'' \<noteq> [] \<and> double (of_nat 8999999999999137) = Finite x \<longrightarrow>
      calculatedYear (rnLookup [''rn_number'' \<mapsto> ''8999999999999137'']) =
        (if x < 13670 then None
         else Some (Finite (of_int (round (fl (fl (fl (x - 13670) / 2635) + 1959))))))"
    unfolding c4 v by blast
  then have w4: "calculatedYear (rnLookup [''rn_number'' \<mapsto> ''8999999999999137'']) =
      Some (Finite 3415559774250)"
    unfolding d using r(2) by simp
  from rnLookup_registration_formula [of longRun]
  have "replicate 310 CHR ''9'' \<noteq> [] \<and>
      double (of_nat (digitsValue (replicate 310 CHR ''9''))) = Infinity \<longrightarrow>
      calculatedYear (rnLookup longRun) = Some Infinity"
    unfolding rnLookup_longRun(1) by blast
  then have w5: "calculatedYear (rnLookup longRun) = Some Infinity"
    unfolding rnLookup_longRun(2) by simp
  from w1 w2 w3 w4 w5 show ?thesis
    by (intro conjI)
qed

section \<open>Properties of the brand pattern verification\<close>

lemma lastKey_in: "lastKey ks = Some k \<Longrightarrow> k \<in> set ks"
  by (auto simp: lastKey_def split: if_splits)

lemma matchEra_in: "matchEra ks e = Some k \<Longrightarrow> k \<in> set ks"
  by (auto simp: matchEra_def find_Some_iff split: option.splits if_splits dest: lastKey_in)

lemma matchEra_total: "ks \<noteq> [] \<Longrightarrow> \<exists>k. matchEra ks e = Some k"
  by (auto simp: matchEra_def lastKey_def split: option.splits)

text \<open>Every brand of the table has an era, and every era has four or five patterns.\<close>

lemma BRAND_PATTERNS_shape:
  "list_all (\<lambda>(b, eras). eras \<noteq> [] \<and>
      list_all (\<lambda>(k, e). length (patterns e) = 4 \<or> length (patterns e) = 5) eras) BRAND_PATTERNS"
  by (simp add: BRAND_PATTERNS_def)

lemma brand_eras:
  assumes "map_of BRAND_PATTERNS key = Some eras"
  shows "eras \<noteq> []"
    and "(k, e) \<in> set eras \<Longrightarrow> length (patterns e) = 4 \<or> length (patterns e) = 5"
proof -
  from assms have "(key, eras) \<in> set BRAND_PATTERNS" by (rule map_of_SomeD)
  with BRAND_PATTERNS_shape have s: "eras \<noteq> [] \<and>
      list_all (\<lambda>(k, e). length (patterns e) = 4 \<or> length (patterns e) = 5) eras"
    unfolding list_all_iff by blast
  then show "eras \<noteq> []" by simp
  from s show "(k, e) \<in> set eras \<Longrightarrow> length (patterns e) = 4 \<or> length (patterns e) = 5"
    unfolding list_all_iff by blast
qed

text \<open>What \<open>brandPatterns\<close> returns for a brand of the table.\<close>

lemma brandPatterns_own:
  assumes "map_of BRAND_PATTERNS (brandKeyOf a) = Some eras"
  shows "\<exists>k e. matchEra (map fst eras) (eraArgOf a) = Some k \<and>
     map_of eras k = Some e \<and> (k, e) \<in> set eras \<and>
     brandPatterns a =
       Inr \<lparr>brand = orElse (a ''brand'') ''Unknown'', era = k,
            authenticityScore =
              scoreOf
                (length (filter (observed (observedMarkersOf a)) (patterns e)))
                (length (patterns e))
                (length (filter (observed (observedMarkersOf a)) (redFlagPatterns e))),
            matchedPatterns =
              (if filter (observed (observedMarkersOf a)) (patterns e) \<noteq> []
               then filter (observed (observedMarkersOf a)) (patterns e)
               else patterns e),
            redFlags = filter (observed (observedMarkersOf a)) (redFlagPatterns e),
            details = eraDetails e\<rparr>"
proof -
  from brand_eras(1) [OF assms] have "map fst eras \<noteq> []" by simp
  from matchEra_total [OF this] obtain k where
    k: "matchEra (map fst eras) (eraArgOf a) = Some k" by blast
  from matchEra_in [OF k] obtain e where e: "map_of eras k = Some e"
    by (metis map_of_eq_None_iff not_Some_eq set_map)
  then have m: "(k, e) \<in> set eras" by (rule map_of_SomeD)
  have "brandPatterns a =
       Inr \<lparr>brand = orElse (a ''brand'') ''Unknown'', era = k,
            authenticityScore =
              scoreOf
                (length (filter (observed (observedMarkersOf a)) (patterns e)))
                (length (patterns e))
                (length (filter (observed (observedMarkersOf a)) (redFlagPatterns e))),
            matchedPatterns =
              (if filter (observed (observedMarkersOf a)) (patterns e) \<noteq> []
               then filter (observed (observedMarkersOf a)) (patterns e)
               else patterns e),
            redFlags = filter (observed (observedMarkersOf a)) (redFlagPatterns e),
            details = eraDetails e\<rparr>"
    using assms k e by (simp add: brandPatterns_def getProperty_def Let_def)
  with k e m show ?thesis by blast
qed

text \<open>What it returns, or raises, for any other brand.\<close>

lemma brandPatterns_other:
  assumes "map_of BRAND_PATTERNS (brandKeyOf a) = None"
  shows "brandPatterns a =
     (if brandKeyOf a \<in> set prototypeKeys then Inl TypeError
      else Inr \<lparr>brand = orElse (a ''brand'') ''Unknown'', era = eraArgOf a,
                authenticityScore = 50, matchedPatterns = [],
                redFlags = [''Brand not in database - manual verification required''],
                details =
                  ''Brand '' @ [CHR 0x22] @
                  (case a ''brand'' of None \<Rightarrow> ''undefined'' | Some b \<Rightarrow> b) @ [CHR 0x22] @
                  '' not found in forensic database. Manual authentication recommended.''\<rparr>)"
  using assms by (simp add: brandPatterns_def getProperty_def Let_def)

text \<open>With four or five expected patterns the score needs no rounding.\<close>

lemma scoreOf_exact:
  assumes "n = 4 \<or> n = 5"
  shows "(of_int (scoreOf m n f) :: rat) =
     max 0 (min 100 (100 * (of_nat m / of_nat n) - 15 * of_nat f))"
proof -
  from assms have "(of_nat m / of_nat n) * (100 :: rat) = of_int (25 * int m) \<or>
      (of_nat m / of_nat n) * (100 :: rat) = of_int (20 * int m)"
    by auto
  then obtain q :: int where q: "(of_nat m / of_nat n) * (100 :: rat) = of_int (q * int m)"
    by blast
  have "(of_nat m / of_nat n) * (100 :: rat) - of_nat f * 15 = of_int (q * int m - int f * 15)"
    unfolding q by simp
  then have "round ((of_nat m / of_nat n) * (100 :: rat) - of_nat f * 15) = q * int m - int f * 15"
    by (simp only: round_of_int)
  moreover from assms have "0 < n" by auto
  ultimately have "scoreOf m n f = max 0 (min 100 (q * int m - int f * 15))"
    by (simp add: scoreOf_def Let_def)
  then have "(of_int (scoreOf m n f) :: rat) =
      max 0 (min 100 (of_int (q * int m) - of_int (int f * 15)))"
    by (simp add: of_int_max of_int_min)
  also have "\<dots> = max 0 (min 100 (100 * (of_nat m / of_nat n) - 15 * of_nat f))"
    unfolding q [symmetric] by (simp add: mult.commute)
  finally show ?thesis .
qed

lemma scoreOf_zero:
  assumes "0 < n"
  shows "scoreOf 0 n f = 0"
proof -
  have "(0 :: rat) - of_nat f * 15 = of_int (- (int f * 15))" by simp
  then have "round ((0 :: rat) - of_nat f * 15) = - (int f * 15)"
    by (simp only: round_of_int)
  with assms show ?thesis by (simp add: scoreOf_def Let_def)
qed

text \<open>
  For every brand of the table, every era string and every list of observed markers,
  the score is \<open>100 \<times> (matched patterns / expected patterns) - 15 \<times> (matched red flags)\<close>,
  brought into the range from 0 to 100.
\<close>

lemma brandPatterns_score:
  assumes "map_of BRAND_PATTERNS (brandKeyOf a) = Some eras"
  shows "\<exists>k e r. matchEra (map fst eras) (eraArgOf a) = Some k \<and>
     map_of eras k = Some e \<and> brandPatterns a = Inr r \<and>
     (of_int (authenticityScore r) :: rat) =
       max 0 (min 100
         (100 * (of_nat (length (filter (observed (observedMarkersOf a)) (patterns e))) /
                 of_nat (length (patterns e))) -
          15 * of_nat (length (filter (observed (observedMarkersOf a)) (redFlagPatterns e)))))"
proof -
  from brandPatterns_own [of a eras, OF assms] obtain k e r where
    k: "matchEra (map fst eras) (eraArgOf a) = Some k"
    and e: "map_of eras k = Some e" and m: "(k, e) \<in> set eras"
    and r: "brandPatterns a = Inr r"
    and s: "authenticityScore r =
       scoreOf
         (length (filter (observed (observedMarkersOf a)) (patterns e)))
         (length (patterns e))
         (length (filter (observed (observedMarkersOf a)) (redFlagPatterns e)))"
    by fastforce
  from brand_eras(2) [OF assms m] have "length (patterns e) = 4 \<or> length (patterns e) = 5" .
  from scoreOf_exact [OF this] k e r s show ?thesis by metis
qed

lemma observed_none: "observed [] known = False"
  by (simp add: observed_def)

lemma example_keys:
  "brandKeyOf [''brand'' \<mapsto> '' Nike ''] = ''nike''"
  "observedMarkersOf [''brand'' \<mapsto> '' Nike ''] = []"
  "brandKeyOf [''brand'' \<mapsto> ''Acme Vintage Co''] = ''acme vintage co''"
  "brandKeyOf [''brand'' \<mapsto> ''constructor''] = ''constructor''"
  by code_simp+

text \<open>
  The unknown brand of the specification's example: score 50, one red flag, no matched
  pattern.
\<close>

lemma brandPatterns_acme:
  "brandPatterns [''brand'' \<mapsto> ''Acme Vintage Co''] =
     Inr \<lparr>brand = ''Acme Vintage Co'', era = [], authenticityScore = 50, matchedPatterns = [],
          redFlags = [''Brand not in database - manual verification required''],
          details =
            ''Brand '' @ [CHR 0x22] @ ''Acme Vintage Co'' @ [CHR 0x22] @
            '' not found in forensic database. Manual authentication recommended.''\<rparr>"
  by code_simp

text \<open>
  For a brand outside the table, \<open>brandPatterns\<close> gives the neutral result unless the
  normalised brand names an inherited property.
\<close>

lemma brandPatterns_unknown:
  assumes "map_of BRAND_PATTERNS (brandKeyOf a) = None" and "brandKeyOf a \<notin> set prototypeKeys"
  shows "\<exists>r. brandPatterns a = Inr r \<and> authenticityScore r = 50 \<and> matchedPatterns r = [] \<and>
     redFlags r = [''Brand not in database - manual verification required'']"
  using assms by (simp add: brandPatterns_other)

text \<open>
  C10. For a brand of the table, when no observed marker matches a pattern of the
  matched era, \<open>matchedPatterns\<close> is the whole list of that era's patterns, which is not
  empty, while the score, computed from zero matches, is 0. A result with an empty
  \<open>matchedPatterns\<close> comes from a brand that is not in the table.
\<close>

theorem matched_patterns_fallback:
  "(\<forall>eras. map_of BRAND_PATTERNS (brandKeyOf a) = Some eras \<longrightarrow>
      (\<exists>k e r. matchEra (map fst eras) (eraArgOf a) = Some k \<and>
         map_of eras k = Some e \<and> brandPatterns a = Inr r \<and> era r = k \<and>
         (filter (observed (observedMarkersOf a)) (patterns e) = [] \<longrightarrow>
            matchedPatterns r = patterns e \<and> patterns e \<noteq> [] \<and> authenticityScore r = 0))) \<and>
   (\<forall>r. brandPatterns a = Inr r \<longrightarrow> matchedPatterns r = [] \<longrightarrow>
      map_of BRAND_PATTERNS (brandKeyOf a) = None)"
proof (intro conjI allI impI)
  fix eras
  assume b: "map_of BRAND_PATTERNS (brandKeyOf a) = Some eras"
  from brandPatterns_own [of a eras, OF b] obtain k e r where
    k: "matchEra (map fst eras) (eraArgOf a) = Some k"
    and e: "map_of eras k = Some e" and m: "(k, e) \<in> set eras"
    and r: "brandPatterns a = Inr r" and er: "era r = k"
    and s: "authenticityScore r =
       scoreOf
         (length (filter (observed (observedMarkersOf a)) (patterns e)))
         (length (patterns e))
         (length (filter (observed (observedMarkersOf a)) (redFlagPatterns e)))"
    and p: "matchedPatterns r =
       (if filter (observed (observedMarkersOf a)) (patterns e) \<noteq> []
        then filter (observed (observedMarkersOf a)) (patterns e)
        else patterns e)"
    by fastforce
  from brand_eras(2) [OF b m] have n: "0 < length (patterns e)" by auto
  have "filter (observed (observedMarkersOf a)) (patterns e) = [] \<longrightarrow>
      matchedPatterns r = patterns e \<and> patterns e \<noteq> [] \<and> authenticityScore r = 0"
    using n s p by (auto simp: scoreOf_zero)
  with k e r er
  show "\<exists>k e r. matchEra (map fst eras) (eraArgOf a) = Some k \<and>
         map_of eras k = Some e \<and> brandPatterns a = Inr r \<and> era r = k \<and>
         (filter (observed (observedMarkersOf a)) (patterns e) = [] \<longrightarrow>
            matchedPatterns r = patterns e \<and> patterns e \<noteq> [] \<and> authenticityScore r = 0)"
    by blast
next
  fix r
  assume r: "brandPatterns a = Inr r" and mt: "matchedPatterns r = []"
  show "map_of BRAND_PATTERNS (brandKeyOf a) = None"
  proof (rule ccontr)
    assume "map_of BRAND_PATTERNS (brandKeyOf a) \<noteq> None"
    then obtain eras where
      b: "map_of BRAND_PATTERNS (brandKeyOf a) = Some eras"
      by blast
    from brandPatterns_own [of a eras, OF b] obtain k e where m: "(k, e) \<in> set eras"
      and p: "matchedPatterns r =
       (if filter (observed (observedMarkersOf a)) (patterns e) \<noteq> []
        then filter (observed (observedMarkersOf a)) (patterns e)
        else patterns e)"
      using r by fastforce
    from brand_eras(2) [OF b m] have "patterns e \<noteq> []" by auto
    with p mt show False by (auto split: if_splits)
  qed
qed

theorem matched_patterns_fallback_witness:
  "(\<exists>eras k e r. map_of BRAND_PATTERNS (brandKeyOf [''brand'' \<mapsto> '' Nike '']) = Some eras \<and>
      matchEra (map fst eras) (eraArgOf [''brand'' \<mapsto> '' Nike '']) = Some k \<and>
      map_of eras k = Some e \<and> brandPatterns [''brand'' \<mapsto> '' Nike ''] = Inr r \<and> era r = k \<and>
      matchedPatterns r = patterns e \<and> patterns e \<noteq> [] \<and> authenticityScore r = 0) \<and>
   map_of BRAND_PATTERNS (brandKeyOf [''brand'' \<mapsto> ''Acme Vintage Co'']) = None"
proof -
  obtain eras where b: "map_of BRAND_PATTERNS (brandKeyOf [''brand'' \<mapsto> '' Nike '']) = Some eras"
    by (simp add: example_keys BRAND_PATTERNS_def)
  have f: "\<And>e. filter (observed (observedMarkersOf [''brand'' \<mapsto> '' Nike ''])) (patterns e) = []"
    by (simp add: example_keys observed_none)
  have u: "getProperty BRAND_PATTERNS ''acme vintage co'' = Undefined"
    by (simp add: getProperty_def BRAND_PATTERNS_def prototypeKeys_def)
  have "\<exists>r. brandPatterns [''brand'' \<mapsto> ''Acme Vintage Co''] = Inr r \<and> matchedPatterns r = []"
    by (simp add: brandPatterns_def Let_def example_keys u)
  with matched_patterns_fallback [of "[''brand'' \<mapsto> ''Acme Vintage Co'']"]
  have n: "map_of BRAND_PATTERNS (brandKeyOf [''brand'' \<mapsto> ''Acme Vintage Co'']) = None"
    by blast
  from matched_patterns_fallback [of "[''brand'' \<mapsto> '' Nike '']"] b f n
  show ?thesis by blast
qed

text \<open>
  C7. For a brand of the table the score is
  \<open>100 \<times> (matched patterns / expected patterns) - 15 \<times> (matched red flags)\<close> brought into
  the range from 0 to 100 (\<open>brandPatterns_score\<close>), and for a brand outside the table
  that names no inherited property the result has score 50, one red flag and no matched
  pattern (\<open>brandPatterns_unknown\<close>). The brand \<open>constructor\<close> is not in the table
  either, and for it \<open>brandPatterns\<close> returns no result: it raises a \<open>TypeError\<close>.
\<close>

theorem brandPatterns_inherited_key:
  "map_of BRAND_PATTERNS (brandKeyOf [''brand'' \<mapsto> ''constructor'']) = None \<and>
   brandPatterns [''brand'' \<mapsto> ''constructor''] = Inl TypeError"
  by (simp add: brandPatterns_def Let_def example_keys getProperty_def BRAND_PATTERNS_def
        prototypeKeys_def)

section \<open>Properties of the date forensics\<close>

lemma maxOf_Max: "maxOf x xs = Max (set (x # xs))"
  unfolding maxOf_def by (rule Max.set_eq_fold [symmetric])

lemma minOf_Min: "minOf x xs = Min (set (x # xs))"
  unfolding minOf_def by (rule Min.set_eq_fold [symmetric])

lemma dateForensics_none:
  assumes "matchMarkers (combinedText a) = []"
  shows "yearRange (dateForensics a) = (1960, 2020)"
    and "confidence_df (dateForensics a) = fl (3 / 10)"
  using assms by (simp_all add: dateForensics_def combinedText_def Let_def)

lemma dateForensics_some:
  assumes "matchMarkers (combinedText a) = m # ms"
  shows "yearRange (dateForensics a) =
      (if maxOf (fst (eraRange m)) (map (\<lambda>k. fst (eraRange k)) ms) \<le>
          minOf (snd (eraRange m)) (map (\<lambda>k. snd (eraRange k)) ms)
       then (maxOf (fst (eraRange m)) (map (\<lambda>k. fst (eraRange k)) ms),
             minOf (snd (eraRange m)) (map (\<lambda>k. snd (eraRange k)) ms))
       else (round (fl (weightedStart (m # ms) / totalWeight (m # ms))),
             round (fl (weightedEnd (m # ms) / totalWeight (m # ms)))))"
    and "confidence_df (dateForensics a) =
      min (fl (95 / 100))
        (fl (fl (totalWeight (m # ms) / of_nat (length (m # ms))) +
             fl (of_nat (length (m # ms)) * fl (5 / 100))))"
  using assms by (simp_all add: dateForensics_def combinedText_def Let_def)

text \<open>The markers of the table, and the markers matched.\<close>

lemma CONSTRUCTION_MARKERS_bounds:
  assumes "m \<in> set CONSTRUCTION_MARKERS"
  shows "0 < confidence_m m" and "0 \<le> fst (eraRange m)" and "fst (eraRange m) \<le> 2026"
    and "0 \<le> snd (eraRange m)" and "snd (eraRange m) \<le> 2026"
  using assms by (auto simp: CONSTRUCTION_MARKERS_def fl_positive)

lemma matchMarkers_subset: "set (matchMarkers s) \<subseteq> set CONSTRUCTION_MARKERS"
  by (auto simp: matchMarkers_def)

lemma matchMarkers_length: "length (matchMarkers s) \<le> 18"
proof -
  have "length CONSTRUCTION_MARKERS = 18"
    by (simp add: CONSTRUCTION_MARKERS_def)
  with length_filter_le [of "\<lambda>marker. includesStr s (feature marker)" CONSTRUCTION_MARKERS]
  show ?thesis
    by (simp add: matchMarkers_def)
qed

text \<open>
  A sum accumulated with a rounding at each step is the exact sum up to as many
  roundings as there are steps, on top of those of the summands and of the start.
\<close>

lemma foldl_fl_near:
  assumes "\<And>m. m \<in> set ms \<Longrightarrow> near j (f m) (g m)" and "near k acc s" and "j \<le> k"
  shows "near (k + length ms) (foldl (\<lambda>acc m. fl (acc + f m)) acc ms) (s + sum_list (map g ms))"
  using assms
proof (induction ms arbitrary: acc s k)
  case Nil
  then show ?case
    by simp
next
  case (Cons m ms)
  from Cons.prems(1) [of m] Cons.prems(3) have "near k (f m) (g m)"
    by (simp add: near_mono)
  with Cons.prems(2) have "near k (acc + f m) (s + g m)"
    by (rule near_add)
  then have "near (Suc k) (fl (acc + f m)) (s + g m)"
    by (rule near_fl)
  moreover have "\<And>m'. m' \<in> set ms \<Longrightarrow> near j (f m') (g m')"
    using Cons.prems(1) by simp
  moreover have "j \<le> Suc k"
    using Cons.prems(3) by simp
  ultimately have "near (Suc k + length ms) (foldl (\<lambda>acc m. fl (acc + f m)) (fl (acc + f m)) ms)
      (s + g m + sum_list (map g ms))"
    by (intro Cons.IH)
  then show ?case
    by (simp add: add.assoc)
qed

lemma totalWeight_near:
  assumes "\<And>m. m \<in> set ms \<Longrightarrow> 0 < confidence_m m"
  shows "near (length ms) (totalWeight ms) (sum_list (map confidence_m ms))"
proof -
  have "\<And>m. m \<in> set ms \<Longrightarrow> near 0 (confidence_m m) (confidence_m m)"
    using assms by (simp add: near_refl less_imp_le)
  moreover have "near 0 0 0"
    by (simp add: near_refl)
  moreover have "(0 :: nat) \<le> 0"
    by simp
  ultimately have "near (0 + length ms) (foldl (\<lambda>acc m. fl (acc + confidence_m m)) 0 ms)
      (0 + sum_list (map confidence_m ms))"
    by (rule foldl_fl_near)
  then show ?thesis
    by (simp add: totalWeight_def)
qed

lemma weighted_near:
  assumes "\<And>m. m \<in> set ms \<Longrightarrow> 0 < confidence_m m \<and> 0 \<le> y m"
  shows "near (Suc (length ms))
      (foldl (\<lambda>acc m. fl (acc + fl (of_int (y m) * confidence_m m))) 0 ms)
      (sum_list (map (\<lambda>m. of_int (y m) * confidence_m m) ms))"
proof -
  have "near 1 (fl (of_int (y m) * confidence_m m)) (of_int (y m) * confidence_m m)"
    if "m \<in> set ms" for m
  proof -
    from assms [OF that] have "0 \<le> (of_int (y m) :: rat) * confidence_m m"
      by simp
    then have "near 0 (of_int (y m) * confidence_m m) (of_int (y m) * confidence_m m)"
      by (rule near_refl)
    then show ?thesis
      unfolding One_nat_def by (rule near_fl)
  qed
  moreover have "near 1 0 0"
    by (simp add: near_def)
  moreover have "(1 :: nat) \<le> 1"
    by simp
  ultimately have "near (1 + length ms)
      (foldl (\<lambda>acc m. fl (acc + fl (of_int (y m) * confidence_m m))) 0 ms)
      (0 + sum_list (map (\<lambda>m. of_int (y m) * confidence_m m) ms))"
    by (rule foldl_fl_near)
  then show ?thesis
    by simp
qed

lemma sum_list_pos:
  fixes f :: "'a \<Rightarrow> rat"
  assumes "ms \<noteq> []" and "\<And>m. m \<in> set ms \<Longrightarrow> 0 < f m"
  shows "0 < sum_list (map f ms)"
  using assms
proof (induction ms)
  case Nil
  then show ?case
    by simp
next
  case (Cons m ms)
  have "0 \<le> sum_list (map f ms)"
    using Cons.prems(2) by (intro sum_list_nonneg) (auto simp: less_imp_le)
  moreover have "0 < f m"
    using Cons.prems(2) by simp
  ultimately show ?case
    by simp
qed

lemma sum_list_weighted_le:
  fixes c :: "'a \<Rightarrow> rat"
  assumes "\<And>m. m \<in> set ms \<Longrightarrow> 0 < c m \<and> y m \<le> b"
  shows "sum_list (map (\<lambda>m. of_int (y m) * c m) ms) \<le> of_int b * sum_list (map c ms)"
  using assms
proof (induction ms)
  case Nil
  then show ?case
    by simp
next
  case (Cons m ms)
  from Cons.prems [of m] have "(of_int (y m) :: rat) * c m \<le> of_int b * c m"
    by (intro mult_right_mono) simp_all
  moreover have "sum_list (map (\<lambda>m. of_int (y m) * c m) ms) \<le> of_int b * sum_list (map c ms)"
    using Cons.prems by (intro Cons.IH) simp
  ultimately show ?case
    by (simp add: distrib_left)
qed

text \<open>
  The average that the code computes is the exact confidence-weighted average up to
  \<open>2 * length ms + 2\<close> roundings, and the integer returned is within
  \<open>1 / 2 + 1 / 2 ^ 35\<close> of the exact average.
\<close>

lemma average_error:
  assumes ms: "ms \<noteq> []" "length ms \<le> 18"
    and m: "\<And>m. m \<in> set ms \<Longrightarrow> 0 < confidence_m m \<and> 0 \<le> y m \<and> y m \<le> 2026"
  shows "\<bar>of_int (round (fl (foldl (\<lambda>acc m. fl (acc + fl (of_int (y m) * confidence_m m))) 0 ms /
                            totalWeight ms))) -
          sum_list (map (\<lambda>m. of_int (y m) * confidence_m m) ms) / sum_list (map confidence_m ms)\<bar> \<le>
         1 / 2 + 1 / 2 ^ 35"
proof -
  define W where "W = foldl (\<lambda>acc m. fl (acc + fl (of_int (y m) * confidence_m m))) 0 ms"
  define S where "S = sum_list (map (\<lambda>m. of_int (y m) * confidence_m m) ms)"
  define C where "C = sum_list (map confidence_m ms)"
  define Q where "Q = fl (W / totalWeight ms)"
  have C: "0 < C"
    unfolding C_def using ms(1) m by (intro sum_list_pos) simp_all
  have "near (Suc (length ms)) W S"
    unfolding W_def S_def using m by (intro weighted_near) simp
  moreover have "near (length ms) (totalWeight ms) C"
    unfolding C_def using m by (intro totalWeight_near) simp
  ultimately have "near (Suc (length ms) + length ms) (W / totalWeight ms) (S / C)"
    using C by (rule near_divide)
  then have "near (Suc (Suc (length ms) + length ms)) Q (S / C)"
    unfolding Q_def by (rule near_fl)
  then have n: "near 38 Q (S / C)"
    by (rule near_mono) (use ms(2) in simp)
  have "S \<le> of_int 2026 * C"
    unfolding S_def C_def using m by (intro sum_list_weighted_le) simp
  with C have b: "S / C \<le> 2026"
    by (simp add: field_simps)
  from n have "0 \<le> S / C"
    by (simp add: near_def)
  from near_abs [OF n] have "\<bar>Q - S / C\<bar> \<le> 38 / 2 ^ 52 * (S / C)"
    by simp
  also have "\<dots> \<le> 38 / 2 ^ 52 * 2026"
    using b by (intro mult_left_mono) simp_all
  also have "\<dots> \<le> 1 / 2 ^ 35"
    by simp
  finally have "\<bar>Q - S / C\<bar> \<le> 1 / 2 ^ 35" .
  moreover have "\<bar>of_int (round Q) - Q\<bar> \<le> 1 / 2"
    by (rule of_int_round_abs_le)
  ultimately have "\<bar>of_int (round Q) - S / C\<bar> \<le> 1 / 2 + 1 / 2 ^ 35"
    by linarith
  then show ?thesis
    unfolding Q_def W_def S_def C_def .
qed

text \<open>
  The confidence that the code computes is the exact one up to \<open>length ms + 2\<close>
  roundings, and within \<open>1 / 2 ^ 47\<close> of it.
\<close>

lemma confidence_error:
  assumes ms: "ms \<noteq> []" "length ms \<le> 18"
    and m: "\<And>m. m \<in> set ms \<Longrightarrow> 0 < confidence_m m"
  shows "\<bar>min (fl (95 / 100))
            (fl (fl (totalWeight ms / of_nat (length ms)) + fl (of_nat (length ms) * fl (5 / 100)))) -
          min (95 / 100) (meanConfidence ms + 5 / 100 * of_nat (length ms))\<bar> \<le> 1 / 2 ^ 47"
proof -
  define n where "n = length ms"
  define C where "C = sum_list (map confidence_m ms)"
  define X where "X = min (fl (95 / 100))
      (fl (fl (totalWeight ms / of_nat n) + fl (of_nat n * fl (5 / 100))))"
  define Y :: rat where "Y = min (95 / 100) (C / of_nat n + 5 / 100 * of_nat n)"
  have n: "0 < n" "n \<le> 18"
    using ms by (simp_all add: n_def)
  have c: "near 0 (of_nat n) (of_nat n)"
    by (simp add: near_refl)
  have "near n (totalWeight ms) C"
    unfolding C_def n_def using m by (intro totalWeight_near) simp
  from near_divide [OF this c] n have "near (n + 0) (totalWeight ms / of_nat n) (C / of_nat n)"
    by simp
  then have "near (Suc n) (fl (totalWeight ms / of_nat n)) (C / of_nat n)"
    using near_fl by simp
  moreover have "near (Suc n) (fl (of_nat n * fl (5 / 100))) (5 / 100 * of_nat n)"
  proof -
    have "near 0 (5 / 100) (5 / 100)"
      by (simp add: near_refl)
    then have "near (Suc 0) (fl (5 / 100)) (5 / 100)"
      by (rule near_fl)
    from near_mult [OF c this] have "near (Suc 0) (of_nat n * fl (5 / 100)) (5 / 100 * of_nat n)"
      by (simp add: mult.commute)
    then have "near (Suc (Suc 0)) (fl (of_nat n * fl (5 / 100))) (5 / 100 * of_nat n)"
      by (rule near_fl)
    then show ?thesis
      by (rule near_mono) (use n in simp)
  qed
  ultimately have "near (Suc n)
      (fl (totalWeight ms / of_nat n) + fl (of_nat n * fl (5 / 100)))
      (C / of_nat n + 5 / 100 * of_nat n)"
    by (rule near_add)
  then have "near (Suc (Suc n))
      (fl (fl (totalWeight ms / of_nat n) + fl (of_nat n * fl (5 / 100))))
      (C / of_nat n + 5 / 100 * of_nat n)"
    by (rule near_fl)
  moreover have "near (Suc (Suc n)) (fl (95 / 100)) (95 / 100)"
  proof -
    have "near 0 (95 / 100) (95 / 100)"
      by (simp add: near_refl)
    then have "near (Suc 0) (fl (95 / 100)) (95 / 100)"
      by (rule near_fl)
    then show ?thesis
      by (rule near_mono) simp
  qed
  ultimately have "near (Suc (Suc n)) X Y"
    unfolding X_def Y_def by (intro near_min)
  then have k: "near 20 X Y"
    by (rule near_mono) (use n in simp)
  have Y: "Y \<le> 95 / 100"
    unfolding Y_def by (rule min.cobounded1)
  from near_abs [OF k] have "\<bar>X - Y\<bar> \<le> 20 / 2 ^ 52 * Y"
    by simp
  also have "\<dots> \<le> 20 / 2 ^ 52 * (95 / 100)"
    using Y by (intro mult_left_mono) simp_all
  also have "\<dots> \<le> 1 / 2 ^ 47"
    by simp
  finally show ?thesis
    unfolding X_def Y_def C_def n_def meanConfidence_def .
qed

text \<open>Two requests, evaluated.\<close>

lemma fl_literals:
  "fl (5 / 10) = 1 / 2" "fl (75 / 100) = 3 / 4"
  "fl (3 / 10) = 5404319552844595 / 18014398509481984"
  "fl (5 / 100) = 3602879701896397 / 72057594037927936"
  "fl (95 / 100) = 4278419646001971 / 4503599627370496"
  by (simp_all add: fl_eval)

lemma matchMarkers_chinaRolledHem:
  "matchMarkers (combinedText chinaRolledHem) =
     [\<lparr>feature = ''made in china'', eraRange = (1985, 2026), confidence_m = 1 / 2\<rparr>,
      \<lparr>feature = ''rolled hem'', eraRange = (1940, 1980), confidence_m = 3 / 4\<rparr>]"
proof -
  have c: "combinedText chinaRolledHem = ''made in china, rolled hem ''"
    by code_simp
  show ?thesis
    unfolding c
    by (simp add: matchMarkers_def CONSTRUCTION_MARKERS_def startsWith_def fl_literals [simplified])
qed

lemma dateForensics_chinaRolledHem:
  "yearRange (dateForensics chinaRolledHem) = (1958, 1998)"
  "confidence_df (dateForensics chinaRolledHem) = 6530219459687219 / 9007199254740992"
  unfolding dateForensics_some [OF matchMarkers_chinaRolledHem]
  by (simp_all add: maxOf_def minOf_def weightedStart_def weightedEnd_def totalWeight_def
      fl_eval round_def)

text \<open>
  C6, as stated, fails. For the details \<open>Made in China, rolled hem\<close> two markers match,
  with the ranges 1985 to 2026 and 1940 to 1980, which do not meet, and the confidences
  0.5 and 0.75. The confidence-weighted averages of the starts and of the ends are 1958
  and 1998.4; the range returned is 1958 to 1998.
\<close>

theorem dateForensics_average_counterexample:
  "map eraRange (matchMarkers (combinedText chinaRolledHem)) = [(1985, 2026), (1940, 1980)] \<and>
   map confidence_m (matchMarkers (combinedText chinaRolledHem)) = [1 / 2, 3 / 4] \<and>
   \<not> maxOf 1985 [1940] \<le> minOf 2026 [1980] \<and>
   averageStart (matchMarkers (combinedText chinaRolledHem)) = 1958 \<and>
   averageEnd (matchMarkers (combinedText chinaRolledHem)) = 9992 / 5 \<and>
   yearRange (dateForensics chinaRolledHem) = (1958, 1998) \<and>
   of_int (snd (yearRange (dateForensics chinaRolledHem))) \<noteq>
     averageEnd (matchMarkers (combinedText chinaRolledHem))"
  unfolding dateForensics_chinaRolledHem unfolding matchMarkers_chinaRolledHem
  by (simp add: maxOf_def minOf_def averageStart_def averageEnd_def)

text \<open>
  Rounding the exact average does not give the range either. For the details
  \<open>chain stitch, selvedge, union label, made in china, coats & clark, rolled hem\<close> six
  markers match and their ranges do not meet. The exact confidence-weighted average of
  the starts is just above 1947.5 and rounds to 1948; the quotient of the two sums of
  doubles is 1947.4999999999998, and the range returned starts at 1947.
\<close>

lemma matchMarkers_sixMarkers:
  "matchMarkers (combinedText sixMarkers) =
     [\<lparr>feature = ''chain stitch'', eraRange = (1950, 1985),
       confidence_m = 3602879701896397 / 4503599627370496\<rparr>,
      \<lparr>feature = ''selvedge'', eraRange = (1920, 1985),
       confidence_m = 7656119366529843 / 9007199254740992\<rparr>,
      \<lparr>feature = ''union label'', eraRange = (1955, 1995),
       confidence_m = 8106479329266893 / 9007199254740992\<rparr>,
      \<lparr>feature = ''made in china'', eraRange = (1985, 2026), confidence_m = 1 / 2\<rparr>,
      \<lparr>feature = ''coats & clark'', eraRange = (1950, 2010),
       confidence_m = 5404319552844595 / 9007199254740992\<rparr>,
      \<lparr>feature = ''rolled hem'', eraRange = (1940, 1980), confidence_m = 3 / 4\<rparr>]"
proof -
  have c: "combinedText sixMarkers =
      ''chain stitch, selvedge, union label, made in china, coats & clark, rolled hem ''"
    by code_simp
  show ?thesis
    unfolding c
    by (simp add: matchMarkers_def CONSTRUCTION_MARKERS_def startsWith_def fl_eval)
qed

lemma dateForensics_sixMarkers:
  "yearRange (dateForensics sixMarkers) = (1947, 1994)"
  "round (averageStart (matchMarkers (combinedText sixMarkers))) = 1948"
  "confidence_df (dateForensics sixMarkers) = 4278419646001971 / 4503599627370496"
  unfolding dateForensics_some [OF matchMarkers_sixMarkers] unfolding matchMarkers_sixMarkers
  by (simp_all add: maxOf_def minOf_def weightedStart_def weightedEnd_def totalWeight_def
      averageStart_def fl_eval round_def)

text \<open>
  C6, amended. When no marker of the list occurs in the lower-cased details and
  materials, joined by a space, the range is 1960 to 2020 and the confidence the double
  0.3. Otherwise the range is the intersection of the matched markers' ranges (the
  greatest start, the least end) when its start is not beyond its end, and else the
  confidence-weighted averages of the starts and of the ends as the code computes them:
  with every product, sum and quotient rounded to a double, and the result rounded to
  an integer by \<open>Math.round\<close>, which is an integer within \<open>1 / 2 + 1 / 2 ^ 35\<close> of the
  exact average weighted by the markers' confidences. The confidence is the lesser of
  0.95 and the mean of the matched markers' confidences plus 0.05 for each matched
  marker, computed with every operation rounded to a double, which is within
  \<open>1 / 2 ^ 47\<close> of the exact value.
\<close>

theorem dateForensics_range_and_confidence:
  fixes a :: args
  defines "ms \<equiv> matchMarkers (combinedText a)"
  shows "(ms = [] \<longrightarrow>
       yearRange (dateForensics a) = (1960, 2020) \<and>
       confidence_df (dateForensics a) = fl (3 / 10) \<and>
       \<bar>confidence_df (dateForensics a) - 3 / 10\<bar> \<le> 1 / 2 ^ 54) \<and>
     (ms \<noteq> [] \<longrightarrow>
       yearRange (dateForensics a) =
         (if Max (set (map (\<lambda>m. fst (eraRange m)) ms)) \<le> Min (set (map (\<lambda>m. snd (eraRange m)) ms))
          then (Max (set (map (\<lambda>m. fst (eraRange m)) ms)),
                Min (set (map (\<lambda>m. snd (eraRange m)) ms)))
          else (round (fl (weightedStart ms / totalWeight ms)),
                round (fl (weightedEnd ms / totalWeight ms)))) \<and>
       \<bar>of_int (round (fl (weightedStart ms / totalWeight ms))) - averageStart ms\<bar> \<le>
         1 / 2 + 1 / 2 ^ 35 \<and>
       \<bar>of_int (round (fl (weightedEnd ms / totalWeight ms))) - averageEnd ms\<bar> \<le>
         1 / 2 + 1 / 2 ^ 35 \<and>
       confidence_df (dateForensics a) =
         min (fl (95 / 100))
           (fl (fl (totalWeight ms / of_nat (length ms)) + fl (of_nat (length ms) * fl (5 / 100)))) \<and>
       \<bar>confidence_df (dateForensics a) -
        min (95 / 100) (meanConfidence ms + 5 / 100 * of_nat (length ms))\<bar> \<le> 1 / 2 ^ 47)"
proof (intro conjI impI)
  assume "ms = []"
  then have e: "matchMarkers (combinedText a) = []"
    by (simp add: ms_def)
  from dateForensics_none [OF e]
  show "yearRange (dateForensics a) = (1960, 2020)"
    and c: "confidence_df (dateForensics a) = fl (3 / 10)"
    by simp_all
  show "\<bar>confidence_df (dateForensics a) - 3 / 10\<bar> \<le> 1 / 2 ^ 54"
    unfolding c by (simp add: fl_eval)
next
  assume n: "ms \<noteq> []"
  then obtain m ms' where c: "ms = m # ms'"
    by (cases ms) auto
  then have e: "matchMarkers (combinedText a) = m # ms'"
    by (simp add: ms_def)
  have l: "length ms \<le> 18"
    unfolding ms_def by (rule matchMarkers_length)
  have t: "0 < confidence_m k" "0 \<le> fst (eraRange k)" "fst (eraRange k) \<le> 2026"
    "0 \<le> snd (eraRange k)" "snd (eraRange k) \<le> 2026" if "k \<in> set ms" for k
    using that matchMarkers_subset [of "combinedText a"] CONSTRUCTION_MARKERS_bounds [of k]
    unfolding ms_def by blast+
  have mx: "maxOf (fst (eraRange m)) (map (\<lambda>k. fst (eraRange k)) ms') =
      Max (set (map (\<lambda>m. fst (eraRange m)) ms))"
    unfolding maxOf_Max c by simp
  have mn: "minOf (snd (eraRange m)) (map (\<lambda>k. snd (eraRange k)) ms') =
      Min (set (map (\<lambda>m. snd (eraRange m)) ms))"
    unfolding minOf_Min c by simp
  show "yearRange (dateForensics a) =
         (if Max (set (map (\<lambda>m. fst (eraRange m)) ms)) \<le> Min (set (map (\<lambda>m. snd (eraRange m)) ms))
          then (Max (set (map (\<lambda>m. fst (eraRange m)) ms)),
                Min (set (map (\<lambda>m. snd (eraRange m)) ms)))
          else (round (fl (weightedStart ms / totalWeight ms)),
                round (fl (weightedEnd ms / totalWeight ms))))"
    unfolding dateForensics_some(1) [OF e] mx mn unfolding c [symmetric] ..
  show "\<bar>of_int (round (fl (weightedStart ms / totalWeight ms))) - averageStart ms\<bar> \<le>
         1 / 2 + 1 / 2 ^ 35"
    unfolding weightedStart_def averageStart_def using n l t by (intro average_error) simp_all
  show "\<bar>of_int (round (fl (weightedEnd ms / totalWeight ms))) - averageEnd ms\<bar> \<le>
         1 / 2 + 1 / 2 ^ 35"
    unfolding weightedEnd_def averageEnd_def using n l t by (intro average_error) simp_all
  show d: "confidence_df (dateForensics a) =
         min (fl (95 / 100))
           (fl (fl (totalWeight ms / of_nat (length ms)) + fl (of_nat (length ms) * fl (5 / 100))))"
    unfolding dateForensics_some(2) [OF e] unfolding c [symmetric] ..
  show "\<bar>confidence_df (dateForensics a) -
        min (95 / 100) (meanConfidence ms + 5 / 100 * of_nat (length ms))\<bar> \<le> 1 / 2 ^ 47"
    unfolding d using n l t by (intro confidence_error) simp_all
qed

theorem dateForensics_range_and_confidence_witness:
  "yearRange (dateForensics Map.empty) = (1960, 2020) \<and>
   confidence_df (dateForensics Map.empty) = 5404319552844595 / 18014398509481984 \<and>
   yearRange (dateForensics chinaRolledHem) = (1958, 1998) \<and>
   \<bar>1958 - averageStart (matchMarkers (combinedText chinaRolledHem))\<bar> \<le> 1 / 2 + 1 / 2 ^ 35 \<and>
   \<bar>1998 - averageEnd (matchMarkers (combinedText chinaRolledHem))\<bar> \<le> 1 / 2 + 1 / 2 ^ 35 \<and>
   confidence_df (dateForensics chinaRolledHem) = 6530219459687219 / 9007199254740992 \<and>
   \<bar>confidence_df (dateForensics chinaRolledHem) - 29 / 40\<bar> \<le> 1 / 2 ^ 47"
proof -
  have c: "combinedText Map.empty = '' ''"
    by code_simp
  have n: "matchMarkers (combinedText Map.empty) = []"
    unfolding c by (simp add: matchMarkers_def CONSTRUCTION_MARKERS_def startsWith_def)
  have s: "matchMarkers (combinedText chinaRolledHem) \<noteq> []"
    by (simp add: matchMarkers_chinaRolledHem)
  have v: "weightedStart (matchMarkers (combinedText chinaRolledHem)) = 4895 / 2"
    "weightedEnd (matchMarkers (combinedText chinaRolledHem)) = 2498"
    "totalWeight (matchMarkers (combinedText chinaRolledHem)) = 5 / 4"
    "meanConfidence (matchMarkers (combinedText chinaRolledHem)) = 5 / 8"
    "Max (set (map (\<lambda>m. fst (eraRange m)) (matchMarkers (combinedText chinaRolledHem)))) = 1985"
    "Min (set (map (\<lambda>m. snd (eraRange m)) (matchMarkers (combinedText chinaRolledHem)))) = 1980"
    "length (matchMarkers (combinedText chinaRolledHem)) = 2"
    unfolding matchMarkers_chinaRolledHem
    by (simp_all add: weightedStart_def weightedEnd_def totalWeight_def meanConfidence_def
        fl_eval)
  from dateForensics_range_and_confidence [of Map.empty] n
  have a: "yearRange (dateForensics Map.empty) = (1960, 2020) \<and>
     confidence_df (dateForensics Map.empty) = fl (3 / 10)"
    by blast
  from dateForensics_range_and_confidence [of chinaRolledHem] s
  have b: "yearRange (dateForensics chinaRolledHem) = (1958, 1998) \<and>
     \<bar>1958 - averageStart (matchMarkers (combinedText chinaRolledHem))\<bar> \<le> 1 / 2 + 1 / 2 ^ 35 \<and>
     \<bar>1998 - averageEnd (matchMarkers (combinedText chinaRolledHem))\<bar> \<le> 1 / 2 + 1 / 2 ^ 35 \<and>
     confidence_df (dateForensics chinaRolledHem) = 6530219459687219 / 9007199254740992 \<and>
     \<bar>confidence_df (dateForensics chinaRolledHem) - 29 / 40\<bar> \<le> 1 / 2 ^ 47"
    unfolding v by (simp add: fl_eval round_def)
  from a b show ?thesis
    by (simp add: fl_eval)
qed
section \<open>Properties of the market search\<close>

lemma marketSearch_band:
  "estimatedValue (marketSearch d a) =
     (case brandValues (toLowerCase (orElse (a ''brand'') '''')) of
        None \<Rightarrow> \<lparr>low = None, mid = None, high = None, currency = ''USD''\<rparr>
      | Some (l, h) \<Rightarrow>
          \<lparr>low = Some (round (of_int l * eraMultiplier (orElse (a ''era'') ''''))),
           mid = Some (round ((of_int (round (of_int l * eraMultiplier (orElse (a ''era'') '''')) +
                   round (of_int h * eraMultiplier (orElse (a ''era'') ''''))) :: rat) / 2)),
           high = Some (round (of_int h * eraMultiplier (orElse (a ''era'') ''''))),
           currency = ''USD''\<rparr>)"
  by (simp add: marketSearch_def Let_def split: option.splits prod.splits)

lemma eraMultiplier_1980:
  "includesStr e ''1980'' \<Longrightarrow> eraMultiplier e = 18 / 10"
  by (simp add: eraMultiplier_def)

text \<open>The specification's example: brand \<open>levis\<close> and an era that contains \<open>1980\<close>.\<close>

lemma marketSearch_levis_1980:
  assumes "a ''brand'' = Some ''levis''" and "a ''era'' = Some e" and "includesStr e ''1980''"
  shows "estimatedValue (marketSearch d a) =
     \<lparr>low = Some 108, mid = Some 774, high = Some 1440, currency = ''USD''\<rparr>"
proof -
  have k: "toLowerCase (orElse (a ''brand'') '''') = ''levis''"
    using assms(1) by (simp add: orElse_def toLowerCase_def lowerChar_def)
  have b: "brandValues ''levis'' = Some (60, 800)"
    by (simp add: brandValues_def getProperty_def baseValues_def)
  from assms(3) have "e \<noteq> []" by auto
  with assms(2) have e: "orElse (a ''era'') '''' = e" by (simp add: orElse_def)
  show ?thesis
    unfolding marketSearch_band k b e eraMultiplier_1980 [OF assms(3)]
    by (simp add: round_def)
qed

text \<open>
  Every band of the price table, and the default band, is made of multiples of 10, and
  the multiplier is a number of tenths: scaling a band needs no rounding.
\<close>

lemma baseValues_tens:
  "(key, (l, h)) \<in> set baseValues \<Longrightarrow> l mod 10 = 0 \<and> h mod 10 = 0"
  by (auto simp: baseValues_def)

lemma brandValues_tens:
  assumes "brandValues key = Some (l, h)"
  shows "l mod 10 = 0 \<and> h mod 10 = 0"
proof (cases "map_of baseValues key")
  case None
  with assms have "l = 30 \<and> h = 200"
    by (simp add: brandValues_def getProperty_def split: if_splits)
  then show ?thesis by simp
next
  case (Some band)
  with assms have "band = (l, h)"
    by (simp add: brandValues_def getProperty_def)
  with Some have "(key, (l, h)) \<in> set baseValues" by (simp add: map_of_SomeD)
  then show ?thesis by (rule baseValues_tens)
qed

lemma eraMultiplier_tenths: "\<exists>k :: int. eraMultiplier e = of_int k / 10"
proof -
  have "eraMultiplier e = of_int 18 / 10 \<or> eraMultiplier e = of_int 14 / 10 \<or>
      eraMultiplier e = of_int 8 / 10 \<or> eraMultiplier e = of_int 10 / 10"
    by (simp add: eraMultiplier_def)
  then show ?thesis by blast
qed

lemma scaled_exact:
  assumes "l mod 10 = 0"
  shows "of_int (round (of_int l * eraMultiplier e)) = of_int l * eraMultiplier e"
proof -
  from eraMultiplier_tenths obtain k :: int where k: "eraMultiplier e = of_int k / 10" by blast
  from assms obtain q where q: "l = 10 * q" by (auto simp: mod_eq_0_iff_dvd)
  have "(of_int l :: rat) * eraMultiplier e = of_int (q * k)"
    by (simp add: k q)
  then show ?thesis by (simp only: round_of_int)
qed

lemma marketSearch_scaled:
  assumes "brandValues (toLowerCase (orElse (a ''brand'') [])) = Some (l, h)"
  shows "\<exists>lo hi. estimatedValue (marketSearch d a) =
       \<lparr>low = Some lo, mid = Some (round ((of_int (lo + hi) :: rat) / 2)), high = Some hi,
        currency = ''USD''\<rparr> \<and>
     of_int lo = of_int l * eraMultiplier (orElse (a ''era'') []) \<and>
     of_int hi = of_int h * eraMultiplier (orElse (a ''era'') [])"
proof -
  from brandValues_tens [OF assms] have t: "l mod 10 = 0" "h mod 10 = 0" by simp_all
  have "estimatedValue (marketSearch d a) =
       \<lparr>low = Some (round (of_int l * eraMultiplier (orElse (a ''era'') []))),
        mid = Some (round ((of_int (round (of_int l * eraMultiplier (orElse (a ''era'') [])) +
                   round (of_int h * eraMultiplier (orElse (a ''era'') []))) :: rat) / 2)),
        high = Some (round (of_int h * eraMultiplier (orElse (a ''era'') []))),
        currency = ''USD''\<rparr>"
    unfolding marketSearch_band assms by simp
  with scaled_exact [OF t(1), of "orElse (a ''era'') []"] scaled_exact [OF t(2), of "orElse (a ''era'') []"]
  show ?thesis by blast
qed

text \<open>
  C9. For a brand of the price table, and with the default band for a brand outside it
  that names no inherited property, low and high are the base band times the era
  multiplier and mid is \<open>round ((low + high) / 2)\<close> (\<open>marketSearch_scaled\<close>); for
  \<open>levis\<close> and an era containing \<open>1980\<close> they are 108, 1440 and 774
  (\<open>marketSearch_levis_1980\<close>). The brand \<open>constructor\<close> is not in the price table
  either, and for it the default band is not used: low, mid and high are all \<open>NaN\<close>.
\<close>

theorem marketSearch_inherited_key:
  "map_of baseValues (toLowerCase ''constructor'') = None \<and>
   estimatedValue (marketSearch d [''brand'' \<mapsto> ''constructor'', ''era'' \<mapsto> ''1980s'']) =
     \<lparr>low = None, mid = None, high = None, currency = ''USD''\<rparr>"
proof -
  have k: "toLowerCase ''constructor'' = ''constructor''"
    by code_simp
  have b: "brandValues ''constructor'' = None"
    by (simp add: brandValues_def getProperty_def baseValues_def prototypeKeys_def)
  show ?thesis
    unfolding marketSearch_band
    by (simp add: orElse_def k b) (simp add: baseValues_def)
qed

section \<open>Properties of the tool router\<close>

lemma exec_lookup: "executeToolCall d ''rn_lookup'' a = Inr (Result (RNLookup (rnLookup a)))"
  by (simp add: executeToolCall_def getProperty_def TOOL_MAP_def)

lemma exec_market:
  "executeToolCall d ''market_search'' a = Inr (Result (MarketSearch (marketSearch d a)))"
  by (simp add: executeToolCall_def getProperty_def TOOL_MAP_def)

lemma exec_not_market:
  "toolName \<noteq> ''market_search'' \<Longrightarrow> executeToolCall d toolName a = executeToolCall d' toolName a"
  by (simp add: executeToolCall_def getProperty_def TOOL_MAP_def)

lemma marketSearch_draws:
  "estimatedValue (marketSearch d a) = estimatedValue (marketSearch d' a) \<and>
   marketTrend (marketSearch d a) = marketTrend (marketSearch d' a) \<and>
   demandLevel (marketSearch d a) = demandLevel (marketSearch d' a) \<and>
   map (\<lambda>s. s\<lparr>price := None\<rparr>) (comparableSales (marketSearch d a)) =
     map (\<lambda>s. s\<lparr>price := None\<rparr>) (comparableSales (marketSearch d' a))"
  by (simp add: marketSearch_def Let_def)

text \<open>
  C4, as stated, fails: two executions of \<open>market_search\<close> on the same (empty) argument
  map, with different draws of \<open>Math.random\<close>, give different results.
\<close>

theorem market_search_deterministic_counterexample:
  "executeToolCall (0, 0, 0) ''market_search'' Map.empty \<noteq>
   executeToolCall (1 / 2, 1 / 2, 1 / 2) ''market_search'' Map.empty"
  by (simp add: exec_market marketSearch_def Let_def orElse_def brandValues_def getProperty_def
        baseValues_def prototypeKeys_def toLowerCase_def eraMultiplier_def round_def)

text \<open>
  C4, amended. For every tool name other than \<open>market_search\<close> and every argument map,
  \<open>executeToolCall\<close> gives the same outcome whatever \<open>Math.random\<close> draws. \<open>market_search\<close>
  always returns a result, in which the value band, the trend, the demand level and
  everything in the three comparable sales but their prices are determined by the
  arguments; the three prices depend on the three draws as well.
\<close>

theorem tools_deterministic_but_prices:
  "(toolName \<noteq> ''market_search'' \<longrightarrow>
      executeToolCall d toolName a = executeToolCall d' toolName a) \<and>
   executeToolCall d ''market_search'' a = Inr (Result (MarketSearch (marketSearch d a))) \<and>
   executeToolCall d' ''market_search'' a = Inr (Result (MarketSearch (marketSearch d' a))) \<and>
   estimatedValue (marketSearch d a) = estimatedValue (marketSearch d' a) \<and>
   marketTrend (marketSearch d a) = marketTrend (marketSearch d' a) \<and>
   demandLevel (marketSearch d a) = demandLevel (marketSearch d' a) \<and>
   map (\<lambda>s. s\<lparr>price := None\<rparr>) (comparableSales (marketSearch d a)) =
     map (\<lambda>s. s\<lparr>price := None\<rparr>) (comparableSales (marketSearch d' a))"
  using exec_not_market [of toolName d a d'] marketSearch_draws [of d a d']
  by (simp add: exec_market)

theorem tools_deterministic_but_prices_witness:
  "executeToolCall (0, 0, 0) ''rn_lookup'' [''rn_number'' \<mapsto> ''RN 42850''] =
     executeToolCall (1 / 2, 1 / 2, 1 / 2) ''rn_lookup'' [''rn_number'' \<mapsto> ''RN 42850''] \<and>
   executeToolCall (0, 0, 0) ''date_forensics'' Map.empty =
     executeToolCall (1 / 2, 1 / 2, 1 / 2) ''date_forensics'' Map.empty \<and>
   estimatedValue (marketSearch (0, 0, 0) Map.empty) =
     estimatedValue (marketSearch (1 / 2, 1 / 2, 1 / 2) Map.empty)"
proof -
  have n: "''rn_lookup'' \<noteq> ''market_search''" "''date_forensics'' \<noteq> ''market_search''"
    by simp_all
  from tools_deterministic_but_prices [of "''rn_lookup''" "(0, 0, 0)" "[''rn_number'' \<mapsto> ''RN 42850'']"
      "(1 / 2, 1 / 2, 1 / 2)"] n(1)
  have a: "executeToolCall (0, 0, 0) ''rn_lookup'' [''rn_number'' \<mapsto> ''RN 42850''] =
     executeToolCall (1 / 2, 1 / 2, 1 / 2) ''rn_lookup'' [''rn_number'' \<mapsto> ''RN 42850'']"
    by blast
  from tools_deterministic_but_prices [of "''date_forensics''" "(0, 0, 0)" Map.empty
      "(1 / 2, 1 / 2, 1 / 2)"] n(2)
  have b: "executeToolCall (0, 0, 0) ''date_forensics'' Map.empty =
     executeToolCall (1 / 2, 1 / 2, 1 / 2) ''date_forensics'' Map.empty \<and>
   estimatedValue (marketSearch (0, 0, 0) Map.empty) =
     estimatedValue (marketSearch (1 / 2, 1 / 2, 1 / 2) Map.empty)"
    by blast
  from a b show ?thesis by blast
qed

section \<open>Properties of the response parser\<close>

lemma digits3_bounds: "length (digits3 s) \<le> 3 \<and> list_all isDigit (digits3 s)"
proof -
  have "length (takeWhile isDigit (take 3 s)) \<le> length (take 3 s)"
    by (rule length_takeWhile_le)
  moreover have "list_all isDigit (takeWhile isDigit (take 3 s))"
    by (simp add: list_all_iff) (meson set_takeWhileD)
  ultimately show ?thesis by (simp add: digits3_def)
qed

lemma firstMatch_Some:
  "firstMatch m s = Some r \<Longrightarrow> \<exists>t. m t = Some r"
  by (induction s) (auto split: option.splits)

text \<open>A captured group is a run of one to three digits.\<close>

lemma confidenceMatch_group:
  assumes "confidenceMatch txt = Some ds"
  shows "ds \<noteq> [] \<and> length ds \<le> 3 \<and> list_all isDigit ds"
proof -
  from assms have "(\<exists>t. confidencePercentAt t = Some ds) \<or> (\<exists>t. percentConfidentAt t = Some ds) \<or>
      (\<exists>t. scoreAt t = Some ds)"
    by (auto simp: confidenceMatch_def split: option.splits dest: firstMatch_Some)
  then obtain u where "ds = digits3 u" and "ds \<noteq> []"
    by (auto simp: confidencePercentAt_def percentConfidentAt_def scoreAt_def Let_def
          split: option.splits if_splits list.splits)
  then show ?thesis using digits3_bounds [of u] by simp
qed

lemma parseConfidence_range: "0 \<le> parseConfidence txt \<and> parseConfidence txt \<le> 100"
  by (simp add: parseConfidence_def split: option.splits)

lemma parseConfidence_150: "parseConfidence ''Confidence: 150%'' = 100"
  by code_simp

lemma parseConfidence_examples:
  "parseConfidence ''Confidence: 60%'' = 60"
  "parseConfidence ''I am 85% confident'' = 85"
  "parseConfidence ''Confidence: 95%'' = 95"
  by code_simp+

lemma parse_fields:
  "rnLookup_r (parseAuthenticationResponse t s c) = None"
  "marketData_comparableSales (parseAuthenticationResponse t s c) = []"
  "dateForensics_constructionDetails (parseAuthenticationResponse t s c) = []"
  "dateForensics_materialAnalysis (parseAuthenticationResponse t s c) = []"
  "brandPattern_authenticityScore (parseAuthenticationResponse t s c) =
     confidence (parseAuthenticationResponse t s c)"
  "reasoning (parseAuthenticationResponse t s c) = t"
  by (simp_all add: parseAuthenticationResponse_def Let_def)

text \<open>
  C2. For every text, start time and clock, the parsed confidence lies between 0 and
  100. It is 50 when none of the three patterns matches, and else the captured number
  cut off at 100: the text \<open>Confidence: 150%\<close> gives 100. The level of the result is
  \<open>getConfidenceLevel\<close> of its confidence, which is \<open>very_high\<close> exactly from 90 on, \<open>high\<close>
  exactly from 75 to 89, \<open>moderate\<close> exactly from 55 to 74, \<open>low\<close> exactly from 35 to 54,
  and \<open>uncertain\<close> exactly below 35.
\<close>

theorem parse_confidence_invariant:
  fixes answer :: string and startTime :: int and clock :: "int \<times> int"
  defines "r \<equiv> parseAuthenticationResponse answer startTime clock"
  shows "0 \<le> confidence r \<and> confidence r \<le> 100 \<and>
     confidence r =
       (case confidenceMatch answer of None \<Rightarrow> 50 | Some ds \<Rightarrow> min 100 (int (decimal ds))) \<and>
     confidence (parseAuthenticationResponse ''Confidence: 150%'' startTime clock) = 100 \<and>
     confidenceLevel r = getConfidenceLevel (confidence r) \<and>
     (confidenceLevel r = Very_high) = (90 \<le> confidence r) \<and>
     (confidenceLevel r = High) = (75 \<le> confidence r \<and> confidence r < 90) \<and>
     (confidenceLevel r = Moderate) = (55 \<le> confidence r \<and> confidence r < 75) \<and>
     (confidenceLevel r = Low) = (35 \<le> confidence r \<and> confidence r < 55) \<and>
     (confidenceLevel r = Uncertain) = (confidence r < 35)"
proof -
  have c: "confidence r = parseConfidence answer"
    by (simp add: r_def parseAuthenticationResponse_def Let_def)
  have l: "confidenceLevel r = getConfidenceLevel (confidence r)"
    by (simp add: r_def parseAuthenticationResponse_def Let_def)
  have e: "confidence (parseAuthenticationResponse ''Confidence: 150%'' startTime clock) = 100"
    using parseConfidence_150 by (simp add: parseAuthenticationResponse_def Let_def)
  show ?thesis
    using parseConfidence_range [of answer] e
    unfolding l unfolding c
    by (simp add: getConfidenceLevel_def parseConfidence_def)
qed

section \<open>Properties of the orchestrator\<close>

lemma toolLoop_count:
  "toolCallCount \<le> maxToolCalls \<Longrightarrow> fst (toolLoop E sent toolCallCount result) \<le> maxToolCalls"
proof (induction E sent toolCallCount result rule: toolLoop.induct)
  case (1 E sent toolCallCount result)
  show ?case
  proof (cases result)
    case Rejected
    with 1 show ?thesis by (simp add: toolLoop.simps)
  next
    case Blocked
    with 1 show ?thesis by (simp add: toolLoop.simps)
  next
    case (Answer functionCalls answerText)
    show ?thesis
    proof (cases functionCalls)
      case None
      with Answer 1 show ?thesis by (simp add: toolLoop.simps)
    next
      case (Some calls)
      show ?thesis
      proof (cases "toolCallCount < maxToolCalls")
        case False
        with Answer Some 1 show ?thesis by (simp add: toolLoop.simps)
      next
        case True
        show ?thesis
        proof (cases "runCalls (random E toolCallCount) calls")
          case (Inl e)
          with Answer Some True show ?thesis by (simp add: toolLoop.simps)
        next
          case (Inr toolResponses)
          from True have "toolCallCount + 1 \<le> maxToolCalls" by simp
          with "1.IH" [OF Answer Some True Inr] Answer Some True Inr
          show ?thesis by (simp add: toolLoop.simps [of E sent toolCallCount])
        qed
      qed
    qed
  qed
qed

lemma toolLoop_Answer:
  "toolLoop E sent n result = (k, sent', Inr r) \<Longrightarrow> \<exists>fc t. r = Answer fc t"
proof (induction E sent n result rule: toolLoop.induct)
  case (1 E sent toolCallCount result)
  show ?case
  proof (cases result)
    case Rejected
    with "1.prems" show ?thesis by (simp add: toolLoop.simps)
  next
    case Blocked
    with "1.prems" show ?thesis by (simp add: toolLoop.simps)
  next
    case (Answer functionCalls answerText)
    show ?thesis
    proof (cases functionCalls)
      case None
      with Answer "1.prems" show ?thesis by (auto simp add: toolLoop.simps)
    next
      case (Some calls)
      show ?thesis
      proof (cases "toolCallCount < maxToolCalls")
        case False
        with Answer Some "1.prems" show ?thesis by (auto simp add: toolLoop.simps)
      next
        case True
        show ?thesis
        proof (cases "runCalls (random E toolCallCount) calls")
          case (Inl e)
          with Answer Some True "1.prems" show ?thesis by (simp add: toolLoop.simps)
        next
          case (Inr toolResponses)
          with "1.IH" [OF Answer Some True Inr] Answer Some True "1.prems"
          show ?thesis by (simp add: toolLoop.simps [of E sent toolCallCount])
        qed
      qed
    qed
  qed
qed

lemma promiseAll_map_ok:
  "list_all (\<lambda>x. \<exists>v. f x = Inr v) xs \<Longrightarrow> \<exists>vs. promiseAll (map f xs) = Inr vs \<and> map Inr vs = map f xs"
proof (induction xs)
  case Nil
  then show ?case by simp
next
  case (Cons x xs)
  then obtain v vs where "f x = Inr v" and "promiseAll (map f xs) = Inr vs" and "map Inr vs = map f xs"
    by auto
  then show ?case by simp
qed

lemma promiseAll_Inr:
  "promiseAll rs = Inr vs \<Longrightarrow> map Inr vs = rs"
proof (induction rs arbitrary: vs)
  case Nil
  then show ?case by simp
next
  case (Cons r rs)
  then show ?case
    by (cases r) (auto split: sum.splits)
qed

lemma runCalls_ok:
  assumes "list_all (\<lambda>c. \<forall>d. \<exists>v. executeToolCall d (callName c) (callArgs c) = Inr v) calls"
  shows "\<exists>rs. runCalls ds calls = Inr rs"
proof -
  have "list_all (\<lambda>x. \<exists>v. (\<lambda>(j, call). toolResponse (ds j) call) x = Inr v) (enumerate 0 calls)"
    unfolding list_all_iff
  proof
    fix x assume "x \<in> set (enumerate 0 calls)"
    then have "fst x < length calls" and "calls ! fst x = snd x"
      by (simp_all add: in_set_enumerate_eq)
    then have "snd x \<in> set calls"
      using nth_mem [of "fst x" calls] by simp
    then obtain j c where x: "x = (j, c)" and "c \<in> set calls"
      by (cases x) simp
    with assms obtain v where "executeToolCall (ds j) (callName c) (callArgs c) = Inr v"
      unfolding list_all_iff by blast
    then show "\<exists>v. (\<lambda>(j, call). toolResponse (ds j) call) x = Inr v"
      by (simp add: x toolResponse_def)
  qed
  from promiseAll_map_ok [OF this] show ?thesis
    by (auto simp: runCalls_def)
qed

lemma toolLoop_ceiling:
  assumes H: "\<forall>sent. \<exists>calls t. chat E sent = Answer (Some calls) t \<and>
      list_all (\<lambda>c. \<forall>d. \<exists>v. executeToolCall d (callName c) (callArgs c) = Inr v) calls"
  shows "n \<le> maxToolCalls \<Longrightarrow>
    \<exists>sent' fc t. toolLoop E sent n (chat E sent) = (maxToolCalls, sent', Inr (Answer fc t)) \<and>
       length sent' = length sent + (maxToolCalls - n) \<and> chat E sent' = Answer fc t"
proof (induction "maxToolCalls - n" arbitrary: n sent)
  case 0
  then have n: "n = maxToolCalls" by simp
  from H obtain calls t where c: "chat E sent = Answer (Some calls) t" by blast
  then show ?case by (simp add: n toolLoop.simps)
next
  case (Suc k)
  then have lt: "n < maxToolCalls" by simp
  from H obtain calls t where c: "chat E sent = Answer (Some calls) t"
    and ok: "list_all (\<lambda>c. \<forall>d. \<exists>v. executeToolCall d (callName c) (callArgs c) = Inr v) calls"
    by blast
  from runCalls_ok [OF ok] obtain rs where rs: "runCalls (random E n) calls = Inr rs" by blast
  have step: "toolLoop E sent n (chat E sent) =
      toolLoop E (sent @ [ToolResponses rs]) (n + 1) (chat E (sent @ [ToolResponses rs]))"
    using c lt rs by (simp add: toolLoop.simps [of E sent n])
  from Suc have "k = maxToolCalls - (n + 1)" and "n + 1 \<le> maxToolCalls" by simp_all
  from Suc.hyps(1) [OF this, of "sent @ [ToolResponses rs]"]
  obtain sent' fc u where
    "toolLoop E (sent @ [ToolResponses rs]) (n + 1) (chat E (sent @ [ToolResponses rs])) =
       (maxToolCalls, sent', Inr (Answer fc u))"
    "length sent' = length (sent @ [ToolResponses rs]) + (maxToolCalls - (n + 1))"
    "chat E sent' = Answer fc u"
    by blast
  with step lt show ?case by auto
qed

text \<open>
  C3. The loop never counts more than 8 rounds. When the key is set and the model
  answers every message with function calls, all of which run without raising, the
  loop is left after exactly 8 rounds, with 9 messages sent (the first one and 8 rounds
  of tool responses); no error is raised: the text of the reply to the eighth round is
  parsed, and \<open>authenticateItem\<close> returns a result.
\<close>

theorem round_ceiling:
  "fst (conversation E imageData) \<le> 8 \<and>
   (apiKey (mergeConfig (DEFAULT_CONFIG (envApiKey E) (envModel E)) config) \<noteq> [] \<and>
    (\<forall>sent. \<exists>calls t. chat E sent = Answer (Some calls) t \<and>
       list_all (\<lambda>c. \<forall>d. \<exists>v. executeToolCall d (callName c) (callArgs c) = Inr v) calls) \<longrightarrow>
    (\<exists>sent fc t. conversation E imageData = (8, sent, Inr (Answer fc t)) \<and>
       length sent = 9 \<and> chat E sent = Answer fc t \<and>
       initialParse E imageData =
         Inr (sent, parseAuthenticationResponse t (now E 0) (now E 1, now E 2)) \<and>
       (\<exists>r. authenticateItem E imageData config = Inr r)))"
proof (intro conjI impI)
  show "fst (conversation E imageData) \<le> 8"
    using toolLoop_count [of 0 E "[InitialMessage (imageToGenerativePart imageData)]"
        "chat E [InitialMessage (imageToGenerativePart imageData)]"]
    by (simp add: conversation_def Let_def maxToolCalls_def)
next
  let ?cfg = "mergeConfig (DEFAULT_CONFIG (envApiKey E) (envModel E)) config"
  assume "apiKey ?cfg \<noteq> [] \<and>
    (\<forall>sent. \<exists>calls t. chat E sent = Answer (Some calls) t \<and>
       list_all (\<lambda>c. \<forall>d. \<exists>v. executeToolCall d (callName c) (callArgs c) = Inr v) calls)"
  then have k: "apiKey ?cfg \<noteq> []"
    and H: "\<forall>sent. \<exists>calls t. chat E sent = Answer (Some calls) t \<and>
       list_all (\<lambda>c. \<forall>d. \<exists>v. executeToolCall d (callName c) (callArgs c) = Inr v) calls"
    by simp_all
  from toolLoop_ceiling [OF H, of 0 "[InitialMessage (imageToGenerativePart imageData)]"]
  obtain sent fc t where
    c: "conversation E imageData = (8, sent, Inr (Answer fc t))"
    and l: "length sent = 9" and a: "chat E sent = Answer fc t"
    by (auto simp: conversation_def Let_def maxToolCalls_def)
  let ?a = "parseAuthenticationResponse t (now E 0) (now E 1, now E 2)"
  have i: "initialParse E imageData = Inr (sent, ?a)"
    by (simp add: initialParse_def c)
  from H obtain calls' t' where "chat E (sent @ [CorrectionMessage (confidence ?a)]) = Answer (Some calls') t'"
    by blast
  then have "\<exists>r. selfCorrect E ?cfg sent ?a = Inr r"
    by (simp add: selfCorrect_def Let_def)
  with k i have "\<exists>r. authenticateItem E imageData config = Inr r"
    by (simp add: authenticateItem_def Let_def)
  with c l a i
  show "\<exists>sent fc t. conversation E imageData = (8, sent, Inr (Answer fc t)) \<and>
       length sent = 9 \<and> chat E sent = Answer fc t \<and>
       initialParse E imageData =
         Inr (sent, parseAuthenticationResponse t (now E 0) (now E 1, now E 2)) \<and>
       (\<exists>r. authenticateItem E imageData config = Inr r)"
    by blast
qed

theorem round_ceiling_witness:
  "\<exists>sent fc t. conversation insistentEnv [] = (8, sent, Inr (Answer fc t)) \<and>
       length sent = 9 \<and> chat insistentEnv sent = Answer fc t \<and>
       initialParse insistentEnv [] =
         Inr (sent, parseAuthenticationResponse t (now insistentEnv 0)
                (now insistentEnv 1, now insistentEnv 2)) \<and>
       (\<exists>r. authenticateItem insistentEnv [] noConfig = Inr r)"
proof -
  have k: "apiKey (mergeConfig (DEFAULT_CONFIG (envApiKey insistentEnv) (envModel insistentEnv))
      noConfig) \<noteq> []"
    by (simp add: mergeConfig_def DEFAULT_CONFIG_def insistentEnv_def noConfig_def orElse_def)
  have H: "\<forall>sent. \<exists>calls t. chat insistentEnv sent = Answer (Some calls) t \<and>
       list_all (\<lambda>c. \<forall>d. \<exists>v. executeToolCall d (callName c) (callArgs c) = Inr v) calls"
    by (simp add: insistentEnv_def lookupCall_def exec_lookup)
  from round_ceiling [of insistentEnv "[]" noConfig] k H show ?thesis
    by blast
qed

lemma initialParse_Inr:
  assumes "initialParse E imageData = Inr (sent, a)"
  shows "\<exists>n fc t. conversation E imageData = (n, sent, Inr (Answer fc t)) \<and>
     a = parseAuthenticationResponse t (now E 0) (now E 1, now E 2)"
  using assms
  by (auto simp: initialParse_def split: prod.splits sum.splits reply.splits)

lemma selfCorrect_cases:
  assumes "selfCorrect E cfg sent a = Inr r"
  shows "r = a \<or>
     (\<exists>fc t. of_int (confidence a) < selfCorrectionThreshold cfg * 100 \<and>
        chat E (sent @ [CorrectionMessage (confidence a)]) = Answer fc t \<and>
        r = parseAuthenticationResponse t (now E 0) (now E 3, now E 4) \<and>
        confidence a < confidence r)"
  using assms
  by (auto simp: selfCorrect_def Let_def split: if_splits reply.splits)

lemma selfCorrect_tie:
  assumes "selfCorrect E cfg sent a = Inr r"
    and "chat E (sent @ [CorrectionMessage (confidence a)]) = Answer fc t"
    and "confidence (parseAuthenticationResponse t (now E 0) (now E 3, now E 4)) \<le> confidence a"
  shows "r = a"
  using assms
  by (auto simp: selfCorrect_def Let_def split: if_splits)

lemma authenticateItem_Inr:
  assumes "authenticateItem E imageData config = Inr r"
  shows "\<exists>sent a. initialParse E imageData = Inr (sent, a) \<and>
     selfCorrect E (mergeConfig (DEFAULT_CONFIG (envApiKey E) (envModel E)) config) sent a = Inr r"
  using assms
  by (auto simp: authenticateItem_def Let_def split: if_splits sum.splits)

lemma authenticateItem_parse:
  assumes "authenticateItem E imageData config = Inr r"
  shows "\<exists>u clock. r = parseAuthenticationResponse u (now E 0) clock"
proof -
  from authenticateItem_Inr [OF assms] obtain sent a where
    i: "initialParse E imageData = Inr (sent, a)"
    and s: "selfCorrect E (mergeConfig (DEFAULT_CONFIG (envApiKey E) (envModel E)) config) sent a = Inr r"
    by blast
  from initialParse_Inr [OF i] obtain u where "a = parseAuthenticationResponse u (now E 0) (now E 1, now E 2)"
    by blast
  with selfCorrect_cases [OF s] show ?thesis by blast
qed

text \<open>
  C1. Whenever \<open>authenticateItem\<close> returns a result, the confidence of that result is at
  least the confidence of the first parse. The result is the first parse itself
  unless the self-correction turn ran and the corrected candidate's confidence is
  strictly greater; whenever the reply to the correction turn parses to a confidence
  that is equal or smaller, the first parse is returned.
\<close>

theorem self_correction_monotone:
  assumes "authenticateItem E imageData config = Inr r"
  shows "\<exists>sent a. initialParse E imageData = Inr (sent, a) \<and>
     confidence a \<le> confidence r \<and>
     (r = a \<or>
      (\<exists>fc t. of_int (confidence a) <
           selfCorrectionThreshold (mergeConfig (DEFAULT_CONFIG (envApiKey E) (envModel E)) config) * 100 \<and>
         chat E (sent @ [CorrectionMessage (confidence a)]) = Answer fc t \<and>
         r = parseAuthenticationResponse t (now E 0) (now E 3, now E 4) \<and>
         confidence a < confidence r)) \<and>
     (\<forall>fc t. chat E (sent @ [CorrectionMessage (confidence a)]) = Answer fc t \<longrightarrow>
        confidence (parseAuthenticationResponse t (now E 0) (now E 3, now E 4)) \<le> confidence a \<longrightarrow>
        r = a)"
proof -
  let ?cfg = "mergeConfig (DEFAULT_CONFIG (envApiKey E) (envModel E)) config"
  from authenticateItem_Inr [OF assms] obtain sent a where
    i: "initialParse E imageData = Inr (sent, a)" and s: "selfCorrect E ?cfg sent a = Inr r"
    by blast
  from selfCorrect_cases [OF s] have c: "r = a \<or>
     (\<exists>fc t. of_int (confidence a) < selfCorrectionThreshold ?cfg * 100 \<and>
        chat E (sent @ [CorrectionMessage (confidence a)]) = Answer fc t \<and>
        r = parseAuthenticationResponse t (now E 0) (now E 3, now E 4) \<and>
        confidence a < confidence r)" .
  then have m: "confidence a \<le> confidence r" by auto
  have t: "\<forall>fc t. chat E (sent @ [CorrectionMessage (confidence a)]) = Answer fc t \<longrightarrow>
        confidence (parseAuthenticationResponse t (now E 0) (now E 3, now E 4)) \<le> confidence a \<longrightarrow>
        r = a"
    using selfCorrect_tie [OF s] by blast
  from i m c t show ?thesis by blast
qed

lemma conversation_correctingEnv:
  "conversation correctingEnv [] =
     (0, [InitialMessage (imageToGenerativePart [])], Inr (Answer None ''Confidence: 60%''))"
  by (simp add: conversation_def Let_def correctingEnv_def toolLoop.simps)

lemma authenticateItem_correctingEnv:
  "authenticateItem correctingEnv [] noConfig =
     Inr (parseAuthenticationResponse ''I am 85% confident'' 0 (0, 0))"
proof -
  have i: "initialParse correctingEnv [] =
      Inr ([InitialMessage (imageToGenerativePart [])],
           parseAuthenticationResponse ''Confidence: 60%'' 0 (0, 0))"
    by (simp add: initialParse_def conversation_correctingEnv) (simp add: correctingEnv_def)
  have c: "confidence (parseAuthenticationResponse ''Confidence: 60%'' 0 (0, 0)) = 60"
    "confidence (parseAuthenticationResponse ''I am 85% confident'' 0 (0, 0)) = 85"
    by (simp_all add: parseAuthenticationResponse_def Let_def parseConfidence_examples)
  have s: "selfCorrect correctingEnv
      (mergeConfig (DEFAULT_CONFIG (envApiKey correctingEnv) (envModel correctingEnv)) noConfig)
      [InitialMessage (imageToGenerativePart [])]
      (parseAuthenticationResponse ''Confidence: 60%'' 0 (0, 0)) =
      Inr (parseAuthenticationResponse ''I am 85% confident'' 0 (0, 0))"
    unfolding selfCorrect_def Let_def c
    by (simp add: correctingEnv_def mergeConfig_def DEFAULT_CONFIG_def noConfig_def c)
  show ?thesis
    unfolding authenticateItem_def Let_def i
    by (simp add: s) (simp add: mergeConfig_def DEFAULT_CONFIG_def noConfig_def correctingEnv_def orElse_def)
qed

theorem self_correction_monotone_witness:
  "\<exists>sent a. initialParse correctingEnv [] = Inr (sent, a) \<and>
     confidence a \<le> confidence (parseAuthenticationResponse ''I am 85% confident'' 0 (0, 0))"
  using self_correction_monotone [OF authenticateItem_correctingEnv] by blast

lemma conversation_toolsEnv:
  "conversation toolsEnv [] =
     (1, [InitialMessage (imageToGenerativePart []),
          ToolResponses
            [(''rn_lookup'', Result (RNLookup nikeLookup)),
             (''market_search'',
              Result (MarketSearch (marketSearch (0, 0, 0) [''brand'' \<mapsto> ''levis'', ''era'' \<mapsto> ''1980s''])))]],
      Inr (Answer None ''Confidence: 95%''))"
  by (simp add: conversation_def Let_def toolsEnv_def toolLoop.simps maxToolCalls_def
        runCalls_def toolResponse_def lookupCall_def marketCall_def exec_lookup exec_market rnLookup_nike
        enumerate_eq_zip)

lemma authenticateItem_toolsEnv:
  "authenticateItem toolsEnv [] noConfig =
     Inr (parseAuthenticationResponse ''Confidence: 95%'' 0 (0, 0))"
proof -
  have i: "initialParse toolsEnv [] =
      Inr (fst (snd (conversation toolsEnv [])),
           parseAuthenticationResponse ''Confidence: 95%'' 0 (0, 0))"
    by (simp add: initialParse_def conversation_toolsEnv) (simp add: toolsEnv_def)
  have c: "confidence (parseAuthenticationResponse ''Confidence: 95%'' 0 (0, 0)) = 95"
    by (simp add: parseAuthenticationResponse_def Let_def parseConfidence_examples)
  have s: "selfCorrect toolsEnv
      (mergeConfig (DEFAULT_CONFIG (envApiKey toolsEnv) (envModel toolsEnv)) noConfig)
      (fst (snd (conversation toolsEnv [])))
      (parseAuthenticationResponse ''Confidence: 95%'' 0 (0, 0)) =
      Inr (parseAuthenticationResponse ''Confidence: 95%'' 0 (0, 0))"
    unfolding selfCorrect_def Let_def c
    by (simp add: mergeConfig_def DEFAULT_CONFIG_def noConfig_def)
  show ?thesis
    unfolding authenticateItem_def Let_def i
    by (simp add: s) (simp add: mergeConfig_def DEFAULT_CONFIG_def noConfig_def toolsEnv_def orElse_def)
qed

text \<open>
  C5. In the run \<open>toolsEnv\<close> the model asks for \<open>rn_lookup\<close> and \<open>market_search\<close> in its
  first reply and answers the tool responses with a text. Both tools run: the lookup of
  \<open>RN 42850\<close> finds Nike Inc., and the market search yields three comparable sales.
  Their results are sent to the model. The result that \<open>authenticateItem\<close> returns
  carries neither: its registration lookup is \<open>null\<close> and its comparable sales are
  empty.
\<close>

theorem tool_results_not_retained:
  "executeToolCall (0, 0, 0) ''rn_lookup'' [''rn_number'' \<mapsto> ''RN 42850''] =
     Inr (Result (RNLookup nikeLookup)) \<and>
   conversation toolsEnv [] =
     (1, [InitialMessage (imageToGenerativePart []),
          ToolResponses
            [(''rn_lookup'', Result (RNLookup nikeLookup)),
             (''market_search'',
              Result (MarketSearch (marketSearch (0, 0, 0) [''brand'' \<mapsto> ''levis'', ''era'' \<mapsto> ''1980s''])))]],
      Inr (Answer None ''Confidence: 95%'')) \<and>
   length (comparableSales (marketSearch (0, 0, 0) [''brand'' \<mapsto> ''levis'', ''era'' \<mapsto> ''1980s''])) = 3 \<and>
   authenticateItem toolsEnv [] noConfig =
     Inr (parseAuthenticationResponse ''Confidence: 95%'' 0 (0, 0)) \<and>
   rnLookup_r (parseAuthenticationResponse ''Confidence: 95%'' 0 (0, 0)) = None \<and>
   marketData_comparableSales (parseAuthenticationResponse ''Confidence: 95%'' 0 (0, 0)) = []"
  using conversation_toolsEnv authenticateItem_toolsEnv
  by (simp add: exec_lookup rnLookup_nike parse_fields marketSearch_def Let_def)

text \<open>
  It is so in every run. Whatever \<open>authenticateItem\<close> returns is the parse of one reply
  text, and the parser fills the registration lookup, the comparable sales and the
  construction details with \<open>null\<close> and empty lists; the results of a round's tool calls
  go into the next message to the model, under the names of their calls, and nowhere
  else.
\<close>

lemma authenticateItem_result:
  assumes "authenticateItem E imageData config = Inr r"
  shows "\<exists>t clock. r = parseAuthenticationResponse t (now E 0) clock"
    and "rnLookup_r r = None" and "marketData_comparableSales r = []"
    and "dateForensics_constructionDetails r = []" and "dateForensics_materialAnalysis r = []"
    and "brandPattern_authenticityScore r = confidence r"
proof -
  from authenticateItem_parse [OF assms]
  obtain u clock where r: "r = parseAuthenticationResponse u (now E 0) clock"
    by blast
  then show "\<exists>t clock. r = parseAuthenticationResponse t (now E 0) clock"
    by blast
  from r show "rnLookup_r r = None" and "marketData_comparableSales r = []"
    and "dateForensics_constructionDetails r = []" and "dateForensics_materialAnalysis r = []"
    and "brandPattern_authenticityScore r = confidence r"
    by (simp_all add: parse_fields)
qed

lemma toolLoop_feeds_back:
  assumes "n < maxToolCalls" and "runCalls (random E n) calls = Inr rs"
  shows "toolLoop E sent n (Answer (Some calls) t) =
        toolLoop E (sent @ [ToolResponses rs]) (n + 1) (chat E (sent @ [ToolResponses rs]))"
    and "map Inr rs = map (\<lambda>(j, call). toolResponse (random E n j) call) (enumerate 0 calls)"
proof -
  from assms show "toolLoop E sent n (Answer (Some calls) t) =
        toolLoop E (sent @ [ToolResponses rs]) (n + 1) (chat E (sent @ [ToolResponses rs]))"
    by (simp add: toolLoop.simps [of E sent n])
  from assms(2) show "map Inr rs = map (\<lambda>(j, call). toolResponse (random E n j) call) (enumerate 0 calls)"
    by (simp add: runCalls_def promiseAll_Inr)
qed

end
